theory Spec2Isabelle
  imports Complex_Main
begin

section \<open>Air Superiority v7: the data model\<close>

text \<open>
  The mode (code/Airsup_v7.ts) keeps its state in module-level variables and drives the
  game engine through the \<open>mod\<close> API. The embedding threads one record, \<open>world\<close>,
  through every function: the module variables, plus the part of the engine's state that
  the mode writes and later reads back (the widget table and the players' teams), plus the
  list of the remaining engine commands in the order they were issued. What the engine
  tells the mode during one callback is the read-only record \<open>engine\<close>.

  Numbers: JavaScript numbers that only count (scores, timers, click counts, object ids)
  are \<open>nat\<close> or \<open>int\<close>. The match clock in seconds is a double: its values are the
  reals a double can hold, and the one subtraction the mode performs on them rounds its
  result as IEEE 754 does (\<open>doubleSub\<close>). Widget sizes are \<open>real\<close>. Layout arguments of the widget constructors that nothing reads back
  (position, anchor, depth, colours, alpha, fill, font size) are left out.
\<close>

type_synonym player = nat   \<comment> \<open>a player, as its object id \<open>mod.GetObjId(player)\<close>\<close>
type_synonym team = nat     \<comment> \<open>\<open>mod.GetTeam(n)\<close> is \<open>n\<close>\<close>
type_synonym owner = "team option"   \<comment> \<open>\<open>None\<close>: the falsy (unset) owner\<close>
type_synonym vec = "real \<times> real \<times> real"   \<comment> \<open>\<open>mod.CreateVector(x, y, z)\<close>\<close>

datatype message = Msg string | MsgScore nat
  \<comment> \<open>\<open>mod.Message(key)\<close> and \<open>mod.Message(mod.stringkeys.score, n)\<close>\<close>

datatype UIButtonEvent = ButtonDown | ButtonUp | OtherButtonEvent

text \<open>A widget is reached by its name only; the table is keyed by name.\<close>

record widget =
  wParent :: "string option"
  wVisible :: bool
  wText :: "message option"
  wSize :: vec
  wPlayer :: "player option"

datatype command =
    SetGameModeScore team nat
  | SetScoreboardHeader nat nat
  | EnableUIInputMode bool player
  | SetUIButtonEnabled string bool
  | UndeployPlayer player
  | SpawnInteractPoint vec
  | EnableInteractPoint nat bool
  | UnspawnObject nat

record PlayerTeamSwitchUi =
  hintTextName :: string
  panelName :: string
  panelLabelName :: string
  team1ButtonName :: string
  team2ButtonName :: string
  closeButtonName :: string
  team1TextName :: string
  team2TextName :: string
  closeTextName :: string
  panelVisible :: bool
  tapCount :: int
  lastTapTime :: real
  interactPoint :: "nat option"
  panelOpenedAt :: real

record ClickState =
  lastIsInteracting :: bool
  clickCount :: int
  sequenceStartTime :: int

record PlayerHud =
  blueScoreName :: string
  redScoreName :: string
  blueBarFillName :: string
  redBarFillName :: string
  objA_Neutral :: string
  objA_NeutralInner :: string
  objA_Friendly :: string
  objA_FriendlyInner :: string
  objA_Enemy :: string
  objA_EnemyInner :: string
  objB_Neutral :: string
  objB_NeutralInner :: string
  objB_Friendly :: string
  objB_FriendlyInner :: string
  objB_Enemy :: string
  objB_EnemyInner :: string
  objC_Neutral :: string
  objC_NeutralInner :: string
  objC_Friendly :: string
  objC_FriendlyInner :: string
  objC_Enemy :: string
  objC_EnemyInner :: string

record world =
  team1ScoreTimer :: nat
  team2ScoreTimer :: nat
  team1Score :: nat   \<comment> \<open>\<open>gameState.team1Score\<close>\<close>
  team2Score :: nat   \<comment> \<open>\<open>gameState.team2Score\<close>\<close>
  playerTeamSwitchUiMap :: "player \<rightharpoonup> PlayerTeamSwitchUi"
  STATES :: "player \<rightharpoonup> ClickState"   \<comment> \<open>\<open>InteractMultiClickDetector.STATES\<close>\<close>
  playerHudMap :: "player \<rightharpoonup> PlayerHud"
  widgets :: "string \<rightharpoonup> widget"   \<comment> \<open>the engine's widget table\<close>
  teamOf :: "player \<Rightarrow> team"   \<comment> \<open>\<open>mod.GetTeam(player)\<close>, written by \<open>mod.SetTeam\<close>\<close>
  commands :: "command list"   \<comment> \<open>the other engine commands issued, oldest first\<close>

record engine =
  ownerA :: owner   \<comment> \<open>\<open>mod.GetCurrentOwnerTeam(mod.GetCapturePoint(100))\<close>\<close>
  ownerB :: owner   \<comment> \<open>capture point 101\<close>
  ownerC :: owner   \<comment> \<open>capture point 102\<close>
  AllPlayers :: "player list"
  IsPlayerValid :: "player \<Rightarrow> bool"
  IsPlayerValidAfterWait :: "player \<Rightarrow> bool"
    \<comment> \<open>\<open>mod.IsPlayerValid\<close> once the \<open>mod.Wait(0.05)\<close> of \<open>forceUndeployPlayer\<close> is over\<close>
  IsInteracting :: "player \<Rightarrow> bool"
  IsAlive :: "player \<Rightarrow> bool"
  IsDead :: "player \<Rightarrow> bool"
  IsManDown :: "player \<Rightarrow> bool"
  GetPosition :: "player \<Rightarrow> vec option"
  GetFacingDirection :: "player \<Rightarrow> vec option"
  DateNow :: int   \<comment> \<open>\<open>Date.now()\<close>, milliseconds\<close>
  GetMatchTimeElapsed :: real   \<comment> \<open>seconds\<close>
  GetUIRoot :: string
  uiAccepts :: "string \<Rightarrow> bool"
    \<comment> \<open>whether the engine really creates a widget asked for under this name\<close>
  spawnedObjId :: nat   \<comment> \<open>the object id of what \<open>mod.SpawnObject\<close> returns\<close>
  enableInteractPointThrows :: bool
    \<comment> \<open>whether \<open>mod.EnableInteractPoint(_, false)\<close> throws during cleanup\<close>

section \<open>Engine primitives\<close>

definition issue :: "command \<Rightarrow> world \<Rightarrow> world" where
  "issue c s = s\<lparr>commands := commands s @ [c]\<rparr>"

definition FindUIWidgetWithName :: "world \<Rightarrow> string \<Rightarrow> widget option" where
  "FindUIWidgetWithName s name = widgets s name"

definition resolves :: "world \<Rightarrow> string \<Rightarrow> bool" where
  "resolves s name = (FindUIWidgetWithName s name \<noteq> None)"

definition updWidget :: "string \<Rightarrow> (widget \<Rightarrow> widget) \<Rightarrow> world \<Rightarrow> world" where
  "updWidget name f s =
     (case widgets s name of
        None \<Rightarrow> s
      | Some w \<Rightarrow> s\<lparr>widgets := (widgets s)(name \<mapsto> f w)\<rparr>)"

definition SetUIWidgetVisible :: "string \<Rightarrow> bool \<Rightarrow> world \<Rightarrow> world" where
  "SetUIWidgetVisible name v s = updWidget name (\<lambda>w. w\<lparr>wVisible := v\<rparr>) s"

definition SetUITextLabel :: "string \<Rightarrow> message \<Rightarrow> world \<Rightarrow> world" where
  "SetUITextLabel name m s = updWidget name (\<lambda>w. w\<lparr>wText := Some m\<rparr>) s"

definition SetUIWidgetSize :: "string \<Rightarrow> vec \<Rightarrow> world \<Rightarrow> world" where
  "SetUIWidgetSize name sz s = updWidget name (\<lambda>w. w\<lparr>wSize := sz\<rparr>) s"

definition isVisible :: "world \<Rightarrow> string \<Rightarrow> bool" where
  "isVisible s name = (case widgets s name of None \<Rightarrow> False | Some w \<Rightarrow> wVisible w)"

definition AddUIContainer ::
  "engine \<Rightarrow> string \<Rightarrow> vec \<Rightarrow> string \<Rightarrow> bool \<Rightarrow> player \<Rightarrow> world \<Rightarrow> world" where
  "AddUIContainer eng name sz parent vis p s =
     (if uiAccepts eng name
      then s\<lparr>widgets := (widgets s)(name \<mapsto>
             \<lparr>wParent = Some parent, wVisible = vis, wText = None, wSize = sz,
              wPlayer = Some p\<rparr>)\<rparr>
      else s)"

definition AddUIText ::
  "engine \<Rightarrow> string \<Rightarrow> vec \<Rightarrow> string \<Rightarrow> bool \<Rightarrow> message \<Rightarrow> player \<Rightarrow> world \<Rightarrow> world" where
  "AddUIText eng name sz parent vis m p s =
     (if uiAccepts eng name
      then s\<lparr>widgets := (widgets s)(name \<mapsto>
             \<lparr>wParent = Some parent, wVisible = vis, wText = Some m, wSize = sz,
              wPlayer = Some p\<rparr>)\<rparr>
      else s)"

section \<open>Team scoring\<close>

definition getSecondsPerPoint :: "nat \<Rightarrow> nat" where
  "getSecondsPerPoint pointsHeld =
     (if pointsHeld = 3 then 1
      else if pointsHeld = 2 then 3
      else if pointsHeld = 1 then 6
      else 0)"

text \<open>
  The three \<open>if / else if\<close> pairs at the head of \<open>updateTeamScores\<close>: how many of the
  zones A, B, C each team owns, as the pair (team 1, team 2).
\<close>

definition tallyZone :: "owner \<Rightarrow> nat \<times> nat \<Rightarrow> nat \<times> nat" where
  "tallyZone ow held =
     (if ow = Some 1 then (fst held + 1, snd held)
      else if ow = Some 2 then (fst held, snd held + 1)
      else held)"

definition pointsHeld :: "engine \<Rightarrow> nat \<times> nat" where
  "pointsHeld eng = tallyZone (ownerC eng) (tallyZone (ownerB eng) (tallyZone (ownerA eng) (0, 0)))"

definition team1PointsHeld :: "engine \<Rightarrow> nat" where
  "team1PointsHeld eng = fst (pointsHeld eng)"

definition team2PointsHeld :: "engine \<Rightarrow> nat" where
  "team2PointsHeld eng = snd (pointsHeld eng)"

definition updateScoreBoardHeader :: "world \<Rightarrow> world" where
  "updateScoreBoardHeader s = issue (SetScoreboardHeader (team1Score s) (team2Score s)) s"

text \<open>
  The team-relative mapping inside \<open>updateAllHudScores\<close>: the viewer's team against
  \<open>mod.GetTeam(1)\<close> decides which score is the friendly one.
\<close>

definition perspective :: "team \<Rightarrow> nat \<Rightarrow> nat \<Rightarrow> nat \<times> nat" where
  "perspective playerTeam s1 s2 = (if playerTeam = 1 then (s1, s2) else (s2, s1))"

definition MAX_SCORE :: real where "MAX_SCORE = 100"
definition MAX_BAR_WIDTH :: real where "MAX_BAR_WIDTH = 280"
definition BAR_HEIGHT :: real where "BAR_HEIGHT = 20"

definition updateHudScoresOf :: "player \<Rightarrow> world \<Rightarrow> world" where
  "updateHudScoresOf p s =
     (case playerHudMap s p of
        None \<Rightarrow> s
      | Some hud \<Rightarrow>
          if \<not> resolves s (blueScoreName hud) \<or> \<not> resolves s (redScoreName hud) then s
          else
            let (friendlyScore, enemyScore) = perspective (teamOf s p) (team1Score s) (team2Score s);
                s1 = SetUITextLabel (blueScoreName hud) (MsgScore friendlyScore) s;
                s2 = SetUITextLabel (redScoreName hud) (MsgScore enemyScore) s1;
                friendlyWidth = MAX_BAR_WIDTH * (real friendlyScore / MAX_SCORE);
                enemyWidth = MAX_BAR_WIDTH * (real enemyScore / MAX_SCORE);
                s3 = SetUIWidgetSize (blueBarFillName hud) (friendlyWidth, BAR_HEIGHT, 0) s2
            in SetUIWidgetSize (redBarFillName hud) (- enemyWidth, BAR_HEIGHT, 0) s3)"

fun forPlayers :: "(player \<Rightarrow> world \<Rightarrow> world) \<Rightarrow> player list \<Rightarrow> world \<Rightarrow> world" where
  "forPlayers body [] s = s"
| "forPlayers body (p # ps) s = forPlayers body ps (body p s)"

definition updateAllHudScores :: "engine \<Rightarrow> world \<Rightarrow> world" where
  "updateAllHudScores eng s = forPlayers updateHudScoresOf (AllPlayers eng) s"

definition updateTeamScores :: "engine \<Rightarrow> world \<Rightarrow> world" where
  "updateTeamScores eng s =
     (let s1 = s\<lparr>team1ScoreTimer := team1ScoreTimer s + 1\<rparr>;
          s2 = s1\<lparr>team2ScoreTimer := team2ScoreTimer s1 + 1\<rparr>;
          team1Rate = getSecondsPerPoint (team1PointsHeld eng);
          team2Rate = getSecondsPerPoint (team2PointsHeld eng);
          award1 = (team1Rate > 0 \<and> team1ScoreTimer s2 \<ge> team1Rate);
          s3 = (if award1
                then issue (SetGameModeScore 1 (team1Score s2 + 1))
                       (s2\<lparr>team1ScoreTimer := 0, team1Score := team1Score s2 + 1\<rparr>)
                else s2);
          award2 = (team2Rate > 0 \<and> team2ScoreTimer s3 \<ge> team2Rate);
          s4 = (if award2
                then issue (SetGameModeScore 2 (team2Score s3 + 1))
                       (s3\<lparr>team2ScoreTimer := 0, team2Score := team2Score s3 + 1\<rparr>)
                else s3);
          scoreChanged = (award1 \<or> award2)
      in if scoreChanged then updateAllHudScores eng (updateScoreBoardHeader s4) else s4)"

section \<open>Objective icons\<close>

definition updateSingleObjectiveVisibility ::
  "team \<Rightarrow> owner \<Rightarrow> string \<Rightarrow> string \<Rightarrow> string \<Rightarrow> string \<Rightarrow> string \<Rightarrow> string \<Rightarrow> world \<Rightarrow> world" where
  "updateSingleObjectiveVisibility playerTeam ownerTeam neutralName neutralInnerName
       friendlyName friendlyInnerName enemyName enemyInnerName s =
     (if \<not> resolves s neutralName \<or> \<not> resolves s neutralInnerName
         \<or> \<not> resolves s friendlyName \<or> \<not> resolves s friendlyInnerName
         \<or> \<not> resolves s enemyName \<or> \<not> resolves s enemyInnerName
      then s
      else
        let s1 = SetUIWidgetVisible neutralName False s;
            s2 = SetUIWidgetVisible neutralInnerName False s1;
            s3 = SetUIWidgetVisible friendlyName False s2;
            s4 = SetUIWidgetVisible friendlyInnerName False s3;
            s5 = SetUIWidgetVisible enemyName False s4;
            s6 = SetUIWidgetVisible enemyInnerName False s5
        in if ownerTeam = None \<or> (ownerTeam \<noteq> Some 1 \<and> ownerTeam \<noteq> Some 2)
           then SetUIWidgetVisible neutralInnerName True (SetUIWidgetVisible neutralName True s6)
           else if Some playerTeam = ownerTeam
           then SetUIWidgetVisible friendlyInnerName True (SetUIWidgetVisible friendlyName True s6)
           else SetUIWidgetVisible enemyInnerName True (SetUIWidgetVisible enemyName True s6))"

definition updateObjectiveIconsOf :: "engine \<Rightarrow> player \<Rightarrow> world \<Rightarrow> world" where
  "updateObjectiveIconsOf eng p s =
     (case playerHudMap s p of
        None \<Rightarrow> s
      | Some hud \<Rightarrow>
          let playerTeam = teamOf s p;
              sA = updateSingleObjectiveVisibility playerTeam (ownerA eng)
                     (objA_Neutral hud) (objA_NeutralInner hud) (objA_Friendly hud)
                     (objA_FriendlyInner hud) (objA_Enemy hud) (objA_EnemyInner hud) s;
              sB = updateSingleObjectiveVisibility playerTeam (ownerB eng)
                     (objB_Neutral hud) (objB_NeutralInner hud) (objB_Friendly hud)
                     (objB_FriendlyInner hud) (objB_Enemy hud) (objB_EnemyInner hud) sA
          in updateSingleObjectiveVisibility playerTeam (ownerC eng)
               (objC_Neutral hud) (objC_NeutralInner hud) (objC_Friendly hud)
               (objC_FriendlyInner hud) (objC_Enemy hud) (objC_EnemyInner hud) sB)"

definition updateAllObjectiveIcons :: "engine \<Rightarrow> world \<Rightarrow> world" where
  "updateAllObjectiveIcons eng s = forPlayers (updateObjectiveIconsOf eng) (AllPlayers eng) s"

text \<open>
  The body of the \<open>while\<close> loop of \<open>OnGameModeStarted\<close>, once per second; \<open>matchTicks\<close>
  runs it once for each engine snapshot of the list, in order (the loop goes on while
  the engine reports match time remaining).
\<close>

definition matchTick :: "engine \<Rightarrow> world \<Rightarrow> world" where
  "matchTick eng s = updateAllObjectiveIcons eng (updateTeamScores eng s)"

fun matchTicks :: "engine list \<Rightarrow> world \<Rightarrow> world" where
  "matchTicks [] s = s"
| "matchTicks (eng # engs) s = matchTicks engs (matchTick eng s)"

section \<open>HUD creation\<close>

text \<open>The decimal digits of an object id, as \<open>"HUD_..." + id\<close> appends them.\<close>

definition digitChar :: "nat \<Rightarrow> char" where
  "digitChar d = char_of (48 + d)"

function stringOfNat :: "nat \<Rightarrow> string" where
  "stringOfNat n = (if n < 10 then [digitChar n] else stringOfNat (n div 10) @ [digitChar (n mod 10)])"
  by pat_completeness auto
termination
  by (relation "measure id") auto

declare stringOfNat.simps [simp del]

definition OBJ_Y :: real where "OBJ_Y = 70"
definition OBJ_SIZE :: real where "OBJ_SIZE = 46"
definition OBJ_INNER_SIZE :: real where "OBJ_INNER_SIZE = OBJ_SIZE - 8"
definition OBJ_SPACING :: real where "OBJ_SPACING = 90"
definition OBJ_LETTER_PLATE_SIZE :: real where "OBJ_LETTER_PLATE_SIZE = OBJ_SIZE - 14"

definition hudNames :: "player \<Rightarrow> PlayerHud" where
  "hudNames p =
     (let id = stringOfNat p in
      \<lparr>blueScoreName = ''HUD_BLUE_SCORE_'' @ id,
       redScoreName = ''HUD_RED_SCORE_'' @ id,
       blueBarFillName = ''HUD_BLUE_BAR_FILL_'' @ id,
       redBarFillName = ''HUD_RED_BAR_FILL_'' @ id,
       objA_Neutral = ''HUD_OBJ_A_NEUTRAL_'' @ id,
       objA_NeutralInner = ''HUD_OBJ_A_NEUTRAL_INNER_'' @ id,
       objA_Friendly = ''HUD_OBJ_A_FRIENDLY_'' @ id,
       objA_FriendlyInner = ''HUD_OBJ_A_FRIENDLY_INNER_'' @ id,
       objA_Enemy = ''HUD_OBJ_A_ENEMY_'' @ id,
       objA_EnemyInner = ''HUD_OBJ_A_ENEMY_INNER_'' @ id,
       objB_Neutral = ''HUD_OBJ_B_NEUTRAL_'' @ id,
       objB_NeutralInner = ''HUD_OBJ_B_NEUTRAL_INNER_'' @ id,
       objB_Friendly = ''HUD_OBJ_B_FRIENDLY_'' @ id,
       objB_FriendlyInner = ''HUD_OBJ_B_FRIENDLY_INNER_'' @ id,
       objB_Enemy = ''HUD_OBJ_B_ENEMY_'' @ id,
       objB_EnemyInner = ''HUD_OBJ_B_ENEMY_INNER_'' @ id,
       objC_Neutral = ''HUD_OBJ_C_NEUTRAL_'' @ id,
       objC_NeutralInner = ''HUD_OBJ_C_NEUTRAL_INNER_'' @ id,
       objC_Friendly = ''HUD_OBJ_C_FRIENDLY_'' @ id,
       objC_FriendlyInner = ''HUD_OBJ_C_FRIENDLY_INNER_'' @ id,
       objC_Enemy = ''HUD_OBJ_C_ENEMY_'' @ id,
       objC_EnemyInner = ''HUD_OBJ_C_ENEMY_INNER_'' @ id\<rparr>)"

text \<open>
  One widget constructor call of \<open>createHUD\<close> below the root: the name, the size, the
  initial visibility and, for \<open>mod.AddUIText\<close>, the text (\<open>None\<close>: \<open>mod.AddUIContainer\<close>).
\<close>

type_synonym hudCall = "string \<times> vec \<times> bool \<times> message option"

definition hudCalls :: "player \<Rightarrow> world \<Rightarrow> hudCall list" where
  "hudCalls p s =
     (let id = stringOfNat p; h = hudNames p;
          score = (90, 45, 0); bar = (280, 20, 0); fill = (0, 20, 0);
          plate = (OBJ_LETTER_PLATE_SIZE, OBJ_LETTER_PLATE_SIZE, 0);
          outer = (OBJ_SIZE, OBJ_SIZE, 0); inner = (OBJ_INNER_SIZE, OBJ_INNER_SIZE, 0);
          blank = Some (Msg '' '')
      in [(''HUD_BLUE_SCORE_BG_'' @ id, score, True, blank),
          (blueScoreName h, score, True, Some (MsgScore (team1Score s))),
          (''HUD_RED_SCORE_BG_'' @ id, score, True, blank),
          (redScoreName h, score, True, Some (MsgScore (team2Score s))),
          (''HUD_BLUE_BAR_BG_'' @ id, bar, True, blank),
          (''HUD_RED_BAR_BG_'' @ id, bar, True, blank),
          (blueBarFillName h, fill, True, None),
          (redBarFillName h, fill, True, None),
          (''HUD_OBJ_LETTER_BG_A_'' @ id, plate, True, blank),
          (''HUD_OBJ_LETTER_A_'' @ id, outer, False, Some (Msg ''OBJ_A'')),
          (''HUD_OBJ_LETTER_BG_B_'' @ id, plate, True, blank),
          (''HUD_OBJ_LETTER_B_'' @ id, outer, False, Some (Msg ''OBJ_B'')),
          (''HUD_OBJ_LETTER_BG_C_'' @ id, plate, True, blank),
          (''HUD_OBJ_LETTER_C_'' @ id, outer, False, Some (Msg ''OBJ_C'')),
          (objA_Neutral h, outer, True, blank),
          (objA_NeutralInner h, inner, True, blank),
          (objA_Friendly h, outer, False, blank),
          (objA_FriendlyInner h, inner, False, blank),
          (objA_Enemy h, outer, False, blank),
          (objA_EnemyInner h, inner, False, blank),
          (objB_Neutral h, outer, True, blank),
          (objB_NeutralInner h, inner, True, blank),
          (objB_Friendly h, outer, False, blank),
          (objB_FriendlyInner h, inner, False, blank),
          (objB_Enemy h, outer, False, blank),
          (objC_Neutral h, outer, True, blank),
          (objC_NeutralInner h, inner, True, blank),
          (objC_Friendly h, outer, False, blank),
          (objB_EnemyInner h, inner, False, blank),
          (objC_FriendlyInner h, inner, False, blank),
          (objC_Enemy h, outer, False, blank),
          (objC_EnemyInner h, inner, False, blank),
          (''HUD_OBJ_LETTER_FRONT_A_'' @ id, outer, True, Some (Msg ''OBJ_A'')),
          (''HUD_OBJ_LETTER_FRONT_B_'' @ id, outer, True, Some (Msg ''OBJ_B'')),
          (''HUD_OBJ_LETTER_FRONT_C_'' @ id, outer, True, Some (Msg ''OBJ_C''))])"

fun addHudWidgets :: "engine \<Rightarrow> string \<Rightarrow> player \<Rightarrow> hudCall list \<Rightarrow> world \<Rightarrow> world" where
  "addHudWidgets eng rootName p [] s = s"
| "addHudWidgets eng rootName p ((name, sz, vis, None) # cs) s =
     addHudWidgets eng rootName p cs (AddUIContainer eng name sz rootName vis p s)"
| "addHudWidgets eng rootName p ((name, sz, vis, Some m) # cs) s =
     addHudWidgets eng rootName p cs (AddUIText eng name sz rootName vis m p s)"

definition createHUD :: "engine \<Rightarrow> player \<Rightarrow> world \<Rightarrow> world" where
  "createHUD eng p s =
     (if playerHudMap s p \<noteq> None then s
      else
        let rootName = ''HUD_ROOT_'' @ stringOfNat p;
            s1 = AddUIContainer eng rootName (1200, 150, 0) (GetUIRoot eng) True p s
        in if \<not> resolves s1 rootName then s1
           else
             let s2 = addHudWidgets eng rootName p (hudCalls p s1) s1
             in s2\<lparr>playerHudMap := (playerHudMap s2)(p \<mapsto> hudNames p)\<rparr>)"

section \<open>The multi-click detector\<close>

definition WINDOW_MS :: int where "WINDOW_MS = 2000"
definition REQUIRED_CLICKS :: int where "REQUIRED_CLICKS = 3"

definition checkMultiClick :: "engine \<Rightarrow> player \<Rightarrow> world \<Rightarrow> bool \<times> world" where
  "checkMultiClick eng p s =
     (let isInteracting = IsInteracting eng p;
          state = (case STATES s p of
                     Some st \<Rightarrow> st
                   | None \<Rightarrow> \<lparr>lastIsInteracting = isInteracting, clickCount = 0,
                              sequenceStartTime = 0\<rparr>);
          s0 = s\<lparr>STATES := (STATES s)(p \<mapsto> state)\<rparr>
      in if isInteracting = lastIsInteracting state then (False, s0)
         else
           let state1 = state\<lparr>lastIsInteracting := isInteracting\<rparr>
           in if \<not> isInteracting then (False, s\<lparr>STATES := (STATES s)(p \<mapsto> state1)\<rparr>)
              else
                let now = DateNow eng;
                    state2 = (if clickCount state1 > 0 \<and> now - sequenceStartTime state1 > WINDOW_MS
                              then state1\<lparr>clickCount := 0\<rparr> else state1)
                in if clickCount state2 = 0
                   then (False, s\<lparr>STATES := (STATES s)(p \<mapsto>
                                  state2\<lparr>sequenceStartTime := now, clickCount := 1\<rparr>)\<rparr>)
                   else
                     let state3 = state2\<lparr>clickCount := clickCount state2 + 1\<rparr>
                     in if clickCount state3 \<noteq> REQUIRED_CLICKS
                        then (False, s\<lparr>STATES := (STATES s)(p \<mapsto> state3)\<rparr>)
                        else (True, s\<lparr>STATES := (STATES s)(p \<mapsto> state3\<lparr>clickCount := 0\<rparr>)\<rparr>))"

text \<open>
  A test driver, not part of the mode: polls the detector once for each sample
  (the raw interact signal and the clock) and collects what it returned.
\<close>

fun pollAll :: "engine \<Rightarrow> player \<Rightarrow> (bool \<times> int) list \<Rightarrow> world \<Rightarrow> bool list \<times> world" where
  "pollAll eng p [] s = ([], s)"
| "pollAll eng p ((b, t) # samples) s =
     (let (r, s1) = checkMultiClick (eng\<lparr>IsInteracting := (IsInteracting eng)(p := b), DateNow := t\<rparr>) p s;
          (rs, s2) = pollAll eng p samples s1
      in (r # rs, s2))"

text \<open>
  The detector as the specification words it (section 4.6), in two passes over the
  polled samples, for comparison with \<open>checkMultiClick\<close>. First pass: a sample is a press
  when it is high and the sample before it was low. Second pass: presses are counted; a
  press that finds the count at 0, or arrives more than 2000 ms after the first press of
  the sequence, starts a sequence at count 1 and reports nothing; otherwise the count
  goes up, and on reaching 3 it is reset to 0 and the gesture is reported.
\<close>

fun specRisingEdges :: "bool \<Rightarrow> (bool \<times> int) list \<Rightarrow> (bool \<times> int) list" where
  "specRisingEdges lastEdgeValue [] = []"
| "specRisingEdges lastEdgeValue ((b, t) # samples) =
     (b \<and> \<not> lastEdgeValue, t) # specRisingEdges b samples"

fun specCountPresses :: "int \<Rightarrow> int \<Rightarrow> (bool \<times> int) list \<Rightarrow> bool list" where
  "specCountPresses count windowStartTime [] = []"
| "specCountPresses count windowStartTime ((press, now) # rest) =
     (if \<not> press then False # specCountPresses count windowStartTime rest
      else
        let count0 = (if count > 0 \<and> now - windowStartTime > 2000 then 0 else count)
        in if count0 = 0 then False # specCountPresses 1 now rest
           else if count0 + 1 = 3 then True # specCountPresses 0 windowStartTime rest
           else False # specCountPresses (count0 + 1) windowStartTime rest)"

section \<open>Double-precision clock arithmetic\<close>

text \<open>
  \<open>mod.GetMatchTimeElapsed() - ui.panelOpenedAt\<close> is a subtraction of two doubles. Its
  result is the exact difference rounded to the nearest double, ties to the even
  significand: 53 significant bits, subnormals below \<open>2 ^ - 1022\<close>. A match clock in
  seconds stays far below \<open>2 ^ 1024\<close>, so overflow to \<open>Infinity\<close> is left out.
\<close>

function bitLength :: "nat \<Rightarrow> nat" where
  "bitLength n = (if n = 0 then 0 else Suc (bitLength (n div 2)))"
  by pat_completeness auto
termination
  by (relation "measure id") auto

declare bitLength.simps [simp del]

text \<open>For \<open>x > 0\<close>, the integer \<open>e\<close> with \<open>2 ^ e \<le> x < 2 ^ (e + 1)\<close>.\<close>

definition floorLog2 :: "real \<Rightarrow> int" where
  "floorLog2 x =
     (if 1 \<le> x then int (bitLength (nat \<lfloor>x\<rfloor>)) - 1
      else - int (bitLength (nat (\<lceil>1 / x\<rceil> - 1))))"

definition pow2 :: "int \<Rightarrow> real" where
  "pow2 k = (if 0 \<le> k then 2 ^ nat k else 1 / 2 ^ nat (- k))"

definition roundHalfEven :: "real \<Rightarrow> int" where
  "roundHalfEven q =
     (let f = \<lfloor>q\<rfloor>; d = q - of_int f
      in if d < 1 / 2 then f
         else if 1 / 2 < d then f + 1
         else if even f then f else f + 1)"

definition roundToDouble :: "real \<Rightarrow> real" where
  "roundToDouble x =
     (if x = 0 then 0
      else
        let e = max (floorLog2 \<bar>x\<bar>) (- 1022);
            ulp = pow2 (e - 52)
        in of_int (roundHalfEven (x / ulp)) * ulp)"

definition doubleSub :: "real \<Rightarrow> real \<Rightarrow> real" where
  "doubleSub x y = roundToDouble (x - y)"

section \<open>The team-switch panel\<close>

definition GetUIWidgetParent :: "world \<Rightarrow> string \<Rightarrow> string option" where
  "GetUIWidgetParent s name = (case widgets s name of None \<Rightarrow> None | Some w \<Rightarrow> wParent w)"

definition nameMatches :: "string \<Rightarrow> string \<Rightarrow> bool" where
  "nameMatches name expected =
     (name = expected \<or> name = expected @ ''_BORDER'' \<or> name = expected @ ''_LABEL'')"

text \<open>The \<open>for\<close> loop of \<open>widgetOrAncestorMatchesName\<close>, with the rounds that are left.\<close>

fun ancestorWalk :: "world \<Rightarrow> string list \<Rightarrow> nat \<Rightarrow> string option \<Rightarrow> bool" where
  "ancestorWalk s expectedNames 0 current = False"
| "ancestorWalk s expectedNames (Suc n) None = False"
| "ancestorWalk s expectedNames (Suc n) (Some name) =
     (if list_ex (nameMatches name) expectedNames then True
      else ancestorWalk s expectedNames n (GetUIWidgetParent s name))"

definition widgetOrAncestorMatchesName :: "world \<Rightarrow> string \<Rightarrow> string list \<Rightarrow> bool" where
  "widgetOrAncestorMatchesName s startWidget expectedNames =
     ancestorWalk s expectedNames 8 (Some startWidget)"

definition updateTeamSwitchButtonState :: "player \<Rightarrow> world \<Rightarrow> world" where
  "updateTeamSwitchButtonState p s =
     (case playerTeamSwitchUiMap s p of
        None \<Rightarrow> s
      | Some ui \<Rightarrow>
          if \<not> resolves s (team1ButtonName ui) \<or> \<not> resolves s (team2ButtonName ui) then s
          else issue (SetUIButtonEnabled (team2ButtonName ui) True)
                 (issue (SetUIButtonEnabled (team1ButtonName ui) True) s))"

definition enableIfResolves :: "string \<Rightarrow> world \<Rightarrow> world" where
  "enableIfResolves name s = (if resolves s name then issue (SetUIButtonEnabled name True) s else s)"

definition setTeamSwitchPanelVisible :: "engine \<Rightarrow> player \<Rightarrow> bool \<Rightarrow> world \<Rightarrow> world" where
  "setTeamSwitchPanelVisible eng p visible s =
     (case playerTeamSwitchUiMap s p of
        None \<Rightarrow> s
      | Some ui \<Rightarrow>
          let s1 = SetUIWidgetVisible (panelName ui) visible s;
              s2 = SetUIWidgetVisible (panelLabelName ui) visible s1;
              s3 = SetUIWidgetVisible (team1ButtonName ui) visible s2;
              s4 = SetUIWidgetVisible (team2ButtonName ui) visible s3;
              s5 = SetUIWidgetVisible (closeButtonName ui) visible s4;
              s6 = SetUIWidgetVisible (team1TextName ui) visible s5;
              s7 = SetUIWidgetVisible (team2TextName ui) visible s6;
              s8 = SetUIWidgetVisible (closeTextName ui) visible s7;
              ui' = ui\<lparr>panelVisible := visible,
                       panelOpenedAt := (if visible then GetMatchTimeElapsed eng else - 1000)\<rparr>;
              s9 = s8\<lparr>playerTeamSwitchUiMap := (playerTeamSwitchUiMap s8)(p \<mapsto> ui')\<rparr>;
              s10 = issue (EnableUIInputMode visible p) s9
          in if visible
             then updateTeamSwitchButtonState p
                    (enableIfResolves (closeButtonName ui)
                      (enableIfResolves (team2ButtonName ui)
                        (enableIfResolves (team1ButtonName ui) s10)))
             else s10)"

definition isPlayerLikelyDeployed :: "engine \<Rightarrow> player \<Rightarrow> bool" where
  "isPlayerLikelyDeployed eng p = (IsAlive eng p \<or> IsDead eng p \<or> IsManDown eng p)"

definition vadd :: "vec \<Rightarrow> vec \<Rightarrow> vec" where
  "vadd a b = (case (a, b) of ((x, y, z), (x', y', z')) \<Rightarrow> (x + x', y + y', z + z'))"

definition ensureTeamSwitchInteractPoint :: "engine \<Rightarrow> player \<Rightarrow> world \<Rightarrow> world" where
  "ensureTeamSwitchInteractPoint eng p s =
     (if \<not> IsPlayerValid eng p then s
      else if \<not> isPlayerLikelyDeployed eng p then s
      else case playerTeamSwitchUiMap s p of
        None \<Rightarrow> s
      | Some ui \<Rightarrow>
          if interactPoint ui \<noteq> None then s
          else (case (GetPosition eng p, GetFacingDirection eng p) of
                  (Some playerPosition, Some playerFacingDirection) \<Rightarrow>
                    let interactPointPosition =
                          vadd (vadd playerPosition playerFacingDirection) (0, 1.5, 0);
                        s1 = issue (SpawnInteractPoint interactPointPosition) s;
                        s2 = issue (EnableInteractPoint (spawnedObjId eng) True) s1
                    in s2\<lparr>playerTeamSwitchUiMap := (playerTeamSwitchUiMap s2)(p \<mapsto>
                             ui\<lparr>interactPoint := Some (spawnedObjId eng)\<rparr>)\<rparr>
                | _ \<Rightarrow> s))"

definition removeTeamSwitchInteractPoint :: "engine \<Rightarrow> player \<Rightarrow> world \<Rightarrow> world" where
  "removeTeamSwitchInteractPoint eng p s =
     (case playerTeamSwitchUiMap s p of
        None \<Rightarrow> s
      | Some ui \<Rightarrow>
          (case interactPoint ui of
             None \<Rightarrow> s
           | Some ip \<Rightarrow>
               let s1 = issue (EnableInteractPoint ip False) s;
                   s2 = (if enableInteractPointThrows eng then s1 else issue (UnspawnObject ip) s1)
               in s2\<lparr>playerTeamSwitchUiMap := (playerTeamSwitchUiMap s2)(p \<mapsto>
                        ui\<lparr>interactPoint := None\<rparr>)\<rparr>))"

text \<open>
  \<open>forceUndeployPlayer\<close> is asynchronous: the second half runs after \<open>mod.Wait(0.05)\<close>.
  The model returns the world once that second half has run; nothing else writes the
  command list in between that a statement below depends on.
\<close>

definition forceUndeployPlayer :: "engine \<Rightarrow> player \<Rightarrow> world \<Rightarrow> world" where
  "forceUndeployPlayer eng p s =
     (if \<not> IsPlayerValid eng p then s
      else
        let s1 = issue (UndeployPlayer p) s
        in if \<not> IsPlayerValidAfterWait eng p then s1
           else issue (UndeployPlayer p) s1)"

definition SetTeam :: "player \<Rightarrow> team \<Rightarrow> world \<Rightarrow> world" where
  "SetTeam p t s = s\<lparr>teamOf := (teamOf s)(p := t)\<rparr>"

definition isClickOn :: "world \<Rightarrow> string \<Rightarrow> string \<Rightarrow> string \<Rightarrow> bool" where
  "isClickOn s eventUIWidget buttonName textName =
     (eventUIWidget = buttonName \<or> eventUIWidget = textName
      \<or> (resolves s buttonName \<and> eventUIWidget = buttonName)
      \<or> widgetOrAncestorMatchesName s eventUIWidget [buttonName, textName])"

definition OnPlayerUIButtonEvent ::
  "engine \<Rightarrow> player \<Rightarrow> string \<Rightarrow> UIButtonEvent \<Rightarrow> world \<Rightarrow> world" where
  "OnPlayerUIButtonEvent eng eventPlayer eventUIWidget eventUIButtonEvent s =
     (let isButtonUp = (eventUIButtonEvent = ButtonUp);
          isButtonDown = (eventUIButtonEvent = ButtonDown)
      in if \<not> isButtonUp \<and> \<not> isButtonDown then s
         else case playerTeamSwitchUiMap s eventPlayer of
           None \<Rightarrow> s
         | Some ui \<Rightarrow>
             if \<not> panelVisible ui then s
             else if isClickOn s eventUIWidget (closeButtonName ui) (closeTextName ui)
             then (if \<not> isButtonUp then s
                   else setTeamSwitchPanelVisible eng eventPlayer False s)
             else if isClickOn s eventUIWidget (team1ButtonName ui) (team1TextName ui)
             then (if \<not> isButtonUp then s
                   else forceUndeployPlayer eng eventPlayer
                          (setTeamSwitchPanelVisible eng eventPlayer False
                            (updateTeamSwitchButtonState eventPlayer
                              (SetTeam eventPlayer 1 s))))
             else if isClickOn s eventUIWidget (team2ButtonName ui) (team2TextName ui)
             then (if \<not> isButtonUp then s
                   else forceUndeployPlayer eng eventPlayer
                          (setTeamSwitchPanelVisible eng eventPlayer False
                            (updateTeamSwitchButtonState eventPlayer
                              (SetTeam eventPlayer 2 s))))
             else s)"

definition OngoingPlayer :: "engine \<Rightarrow> player \<Rightarrow> world \<Rightarrow> world" where
  "OngoingPlayer eng eventPlayer s =
     (if \<not> IsPlayerValid eng eventPlayer then s
      else
        let (completed, s1) = checkMultiClick eng eventPlayer s;
            s2 = (if completed
                  then (case playerTeamSwitchUiMap s1 eventPlayer of
                          None \<Rightarrow> s1
                        | Some ui \<Rightarrow>
                            setTeamSwitchPanelVisible eng eventPlayer (\<not> panelVisible ui) s1)
                  else s1);
            s3 = (case playerTeamSwitchUiMap s2 eventPlayer of
                    None \<Rightarrow> s2
                  | Some ui \<Rightarrow>
                      if panelVisible ui
                         \<and> doubleSub (GetMatchTimeElapsed eng) (panelOpenedAt ui) > 15
                      then setTeamSwitchPanelVisible eng eventPlayer False s2
                      else s2)
        in if isPlayerLikelyDeployed eng eventPlayer
           then ensureTeamSwitchInteractPoint eng eventPlayer s3
           else removeTeamSwitchInteractPoint eng eventPlayer s3)"

section \<open>Reading one team's share of the state\<close>

text \<open>Accessors used to state properties for either team; team 1 and team 2 are the two scoring teams.\<close>

definition scoreOf :: "team \<Rightarrow> world \<Rightarrow> nat" where
  "scoreOf t s = (if t = 1 then team1Score s else team2Score s)"

definition timerOf :: "team \<Rightarrow> world \<Rightarrow> nat" where
  "timerOf t s = (if t = 1 then team1ScoreTimer s else team2ScoreTimer s)"

definition heldOf :: "team \<Rightarrow> engine \<Rightarrow> nat" where
  "heldOf t eng = (if t = 1 then team1PointsHeld eng else team2PointsHeld eng)"

definition scoreState :: "world \<Rightarrow> nat \<times> nat \<times> nat \<times> nat" where
  "scoreState s = (team1ScoreTimer s, team1Score s, team2ScoreTimer s, team2Score s)"

text \<open>A player's \<open>PanelState\<close>: whether the panel is open and since when; \<open>None\<close> without an entry.\<close>

definition panelState :: "player \<Rightarrow> world \<Rightarrow> (bool \<times> real) option" where
  "panelState p s =
     map_option (\<lambda>ui. (panelVisible ui, panelOpenedAt ui)) (playerTeamSwitchUiMap s p)"

definition undeploysOf :: "player \<Rightarrow> world \<Rightarrow> nat" where
  "undeploysOf p s = count_list (commands s) (UndeployPlayer p)"

text \<open>
  What a viewer sees of one objective stack: the \<open>shown\<close> outer/inner pair is visible and
  the two other pairs are not.
\<close>

definition showsOnly ::
  "world \<Rightarrow> string \<times> string \<Rightarrow> string \<times> string \<Rightarrow> string \<times> string \<Rightarrow> bool" where
  "showsOnly s shown hidden1 hidden2 =
     (isVisible s (fst shown) \<and> isVisible s (snd shown)
      \<and> \<not> isVisible s (fst hidden1) \<and> \<not> isVisible s (snd hidden1)
      \<and> \<not> isVisible s (fst hidden2) \<and> \<not> isVisible s (snd hidden2))"

section \<open>A fresh match\<close>

text \<open>
  The module state right after the resets of \<open>OnGameModeStarted\<close>, with nobody joined
  yet, and an engine snapshot in which no zone is owned; concrete runs start from these.
\<close>

definition exampleWorld :: world where
  "exampleWorld =
     \<lparr>team1ScoreTimer = 0, team2ScoreTimer = 0, team1Score = 0, team2Score = 0,
      playerTeamSwitchUiMap = Map.empty, STATES = Map.empty, playerHudMap = Map.empty,
      widgets = Map.empty, teamOf = (\<lambda>p. 1), commands = []\<rparr>"

definition exampleEngine :: engine where
  "exampleEngine =
     \<lparr>ownerA = None, ownerB = None, ownerC = None, AllPlayers = [],
      IsPlayerValid = (\<lambda>p. True), IsPlayerValidAfterWait = (\<lambda>p. True),
      IsInteracting = (\<lambda>p. False), IsAlive = (\<lambda>p. True), IsDead = (\<lambda>p. False),
      IsManDown = (\<lambda>p. False), GetPosition = (\<lambda>p. None), GetFacingDirection = (\<lambda>p. None),
      DateNow = 0, GetMatchTimeElapsed = 0, GetUIRoot = ''UI_ROOT'', uiAccepts = (\<lambda>n. True),
      spawnedObjId = 0, enableInteractPointThrows = False\<rparr>"

text \<open>
  The team-switch entry \<open>createTeamSwitchUi\<close> stores for player 7, a world in which that
  player has it, and the same world with the panel open since second 3.
\<close>

definition exampleSwitchUi :: PlayerTeamSwitchUi where
  "exampleSwitchUi =
     \<lparr>hintTextName = ''HUD_TEAM_SWITCH_HINT_7'', panelName = ''HUD_TEAM_SWITCH_PANEL_7'',
      panelLabelName = ''HUD_TEAM_SWITCH_LABEL_7'', team1ButtonName = ''HUD_TEAM_SWITCH_T1_7'',
      team2ButtonName = ''HUD_TEAM_SWITCH_T2_7'', closeButtonName = ''HUD_TEAM_SWITCH_CLOSE_7'',
      team1TextName = ''HUD_TEAM_SWITCH_T1_TEXT_7'', team2TextName = ''HUD_TEAM_SWITCH_T2_TEXT_7'',
      closeTextName = ''HUD_TEAM_SWITCH_CLOSE_TEXT_7'', panelVisible = False, tapCount = 0,
      lastTapTime = - 1000, interactPoint = None, panelOpenedAt = - 1000\<rparr>"

definition closedPanelWorld :: world where
  "closedPanelWorld = exampleWorld\<lparr>playerTeamSwitchUiMap := [7 \<mapsto> exampleSwitchUi]\<rparr>"

definition openPanelWorld :: world where
  "openPanelWorld = exampleWorld\<lparr>playerTeamSwitchUiMap :=
     [7 \<mapsto> exampleSwitchUi\<lparr>panelVisible := True, panelOpenedAt := 3\<rparr>]\<rparr>"

text \<open>The fresh match once player 7 has joined and got a HUD.\<close>

definition exampleHudWorld :: world where
  "exampleHudWorld = createHUD exampleEngine 7 exampleWorld"


definition leavingEngine :: engine where
  "leavingEngine = exampleEngine\<lparr>IsPlayerValidAfterWait := (\<lambda>p. False)\<rparr>"

text \<open>
  The doubles nearest to 15.3 and to 0.3, a world in which player 7's panel has been open
  since second 0.3, and the engine of a tick at second 15.3.
\<close>

definition double_15_3 :: real where
  "double_15_3 = 4306567143673037 / 281474976710656"

definition double_0_3 :: real where
  "double_0_3 = 5404319552844595 / 18014398509481984"

definition earlyPanelWorld :: world where
  "earlyPanelWorld = exampleWorld\<lparr>playerTeamSwitchUiMap :=
     [7 \<mapsto> exampleSwitchUi\<lparr>panelVisible := True, panelOpenedAt := double_0_3\<rparr>]\<rparr>"

definition laterEngine :: engine where
  "laterEngine = exampleEngine\<lparr>GetMatchTimeElapsed := double_15_3\<rparr>"

section \<open>Scoring: what one tick and a run of ticks do\<close>


lemma scoreState_updWidget [simp]: "scoreState (updWidget name f s) = scoreState s"
  by (simp add: scoreState_def updWidget_def split: option.splits)

lemma forPlayers_preserves:
  assumes "\<And>p s. f (body p s) = f s"
  shows "f (forPlayers body ps s) = f s"
  using assms by (induction ps arbitrary: s) simp_all

lemma scoreState_updateHudScoresOf: "scoreState (updateHudScoresOf p s) = scoreState s"
  by (simp add: updateHudScoresOf_def SetUITextLabel_def SetUIWidgetSize_def Let_def
      split: option.splits prod.splits)

lemma scoreState_updateAllHudScores: "scoreState (updateAllHudScores eng s) = scoreState s"
  unfolding updateAllHudScores_def by (rule forPlayers_preserves) (rule scoreState_updateHudScoresOf)

lemma scoreState_updateSingle:
  "scoreState (updateSingleObjectiveVisibility pt ow n ni f fi e ei s) = scoreState s"
  by (simp add: updateSingleObjectiveVisibility_def SetUIWidgetVisible_def Let_def)

lemma scoreState_updateObjectiveIconsOf: "scoreState (updateObjectiveIconsOf eng p s) = scoreState s"
  by (simp add: updateObjectiveIconsOf_def scoreState_updateSingle Let_def split: option.splits)

lemma scoreState_updateAllObjectiveIcons: "scoreState (updateAllObjectiveIcons eng s) = scoreState s"
  unfolding updateAllObjectiveIcons_def
  by (rule forPlayers_preserves) (rule scoreState_updateObjectiveIconsOf)

lemma scoreState_issue [simp]: "scoreState (issue c s) = scoreState s"
  by (simp add: scoreState_def issue_def)

lemma scoreState_updateTeamScores:
  "scoreState (updateTeamScores eng s) =
     (let r1 = getSecondsPerPoint (team1PointsHeld eng);
          r2 = getSecondsPerPoint (team2PointsHeld eng);
          a1 = (0 < r1 \<and> r1 \<le> team1ScoreTimer s + 1);
          a2 = (0 < r2 \<and> r2 \<le> team2ScoreTimer s + 1)
      in (if a1 then 0 else team1ScoreTimer s + 1, if a1 then team1Score s + 1 else team1Score s,
          if a2 then 0 else team2ScoreTimer s + 1, if a2 then team2Score s + 1 else team2Score s))"
  by (simp add: updateTeamScores_def Let_def scoreState_updateAllHudScores updateScoreBoardHeader_def)
     (simp add: scoreState_def issue_def)


lemma scoreState_matchTick: "scoreState (matchTick eng s) = scoreState (updateTeamScores eng s)"
  by (simp add: matchTick_def scoreState_updateAllObjectiveIcons)

lemma team_step:
  assumes "t = 1 \<or> t = 2"
  shows "timerOf t (updateTeamScores eng s) =
           (if 0 < getSecondsPerPoint (heldOf t eng) \<and> getSecondsPerPoint (heldOf t eng) \<le> timerOf t s + 1
            then 0 else timerOf t s + 1)"
    and "scoreOf t (updateTeamScores eng s) =
           (if 0 < getSecondsPerPoint (heldOf t eng) \<and> getSecondsPerPoint (heldOf t eng) \<le> timerOf t s + 1
            then scoreOf t s + 1 else scoreOf t s)"
proof -
  have "scoreState (updateTeamScores eng s) =
     (let r1 = getSecondsPerPoint (team1PointsHeld eng);
          r2 = getSecondsPerPoint (team2PointsHeld eng);
          a1 = (0 < r1 \<and> r1 \<le> team1ScoreTimer s + 1);
          a2 = (0 < r2 \<and> r2 \<le> team2ScoreTimer s + 1)
      in (if a1 then 0 else team1ScoreTimer s + 1, if a1 then team1Score s + 1 else team1Score s,
          if a2 then 0 else team2ScoreTimer s + 1, if a2 then team2Score s + 1 else team2Score s))"
    by (rule scoreState_updateTeamScores)
  then have eqs:
    "team1ScoreTimer (updateTeamScores eng s) =
       (if 0 < getSecondsPerPoint (team1PointsHeld eng) \<and> getSecondsPerPoint (team1PointsHeld eng) \<le> team1ScoreTimer s + 1 then 0 else team1ScoreTimer s + 1)"
    "team1Score (updateTeamScores eng s) =
       (if 0 < getSecondsPerPoint (team1PointsHeld eng) \<and> getSecondsPerPoint (team1PointsHeld eng) \<le> team1ScoreTimer s + 1 then team1Score s + 1 else team1Score s)"
    "team2ScoreTimer (updateTeamScores eng s) =
       (if 0 < getSecondsPerPoint (team2PointsHeld eng) \<and> getSecondsPerPoint (team2PointsHeld eng) \<le> team2ScoreTimer s + 1 then 0 else team2ScoreTimer s + 1)"
    "team2Score (updateTeamScores eng s) =
       (if 0 < getSecondsPerPoint (team2PointsHeld eng) \<and> getSecondsPerPoint (team2PointsHeld eng) \<le> team2ScoreTimer s + 1 then team2Score s + 1 else team2Score s)"
    by (simp_all add: scoreState_def Let_def)
  from assms show "timerOf t (updateTeamScores eng s) =
           (if 0 < getSecondsPerPoint (heldOf t eng) \<and> getSecondsPerPoint (heldOf t eng) \<le> timerOf t s + 1
            then 0 else timerOf t s + 1)"
    by (auto simp: timerOf_def heldOf_def eqs)
  from assms show "scoreOf t (updateTeamScores eng s) =
           (if 0 < getSecondsPerPoint (heldOf t eng) \<and> getSecondsPerPoint (heldOf t eng) \<le> timerOf t s + 1
            then scoreOf t s + 1 else scoreOf t s)"
    by (auto simp: timerOf_def scoreOf_def heldOf_def eqs)
qed

lemma team_of_scoreState:
  "scoreState s = scoreState s' \<Longrightarrow> timerOf t s = timerOf t s' \<and> scoreOf t s = scoreOf t s'"
  by (simp add: scoreState_def timerOf_def scoreOf_def)

lemma matchTick_team:
  "timerOf t (matchTick eng s) = timerOf t (updateTeamScores eng s)"
  "scoreOf t (matchTick eng s) = scoreOf t (updateTeamScores eng s)"
  using team_of_scoreState [OF scoreState_matchTick] by simp_all

lemma tallyZone_bound: "fst (tallyZone ow c) + snd (tallyZone ow c) \<le> fst c + snd c + 1"
  by (simp add: tallyZone_def)

lemma pointsHeld_sum_le: "team1PointsHeld eng + team2PointsHeld eng \<le> 3"
proof -
  let ?a = "tallyZone (ownerA eng) (0, 0)"
  let ?b = "tallyZone (ownerB eng) ?a"
  have "fst ?a + snd ?a \<le> 1" using tallyZone_bound [of "ownerA eng" "(0, 0)"] by simp
  moreover have "fst ?b + snd ?b \<le> fst ?a + snd ?a + 1" by (rule tallyZone_bound)
  moreover have "fst (pointsHeld eng) + snd (pointsHeld eng) \<le> fst ?b + snd ?b + 1"
    unfolding pointsHeld_def by (rule tallyZone_bound)
  ultimately show ?thesis by (simp add: team1PointsHeld_def team2PointsHeld_def)
qed

lemma heldOf_le: "heldOf t eng \<le> 3"
  using pointsHeld_sum_le [of eng] by (simp add: heldOf_def)

lemma rate_pos: "0 < h \<Longrightarrow> h \<le> 3 \<Longrightarrow> 0 < getSecondsPerPoint h"
  by (simp add: getSecondsPerPoint_def)

lemma ticks_constant_hold:
  assumes "t = 1 \<or> t = 2" and "\<forall>e \<in> set engs. heldOf t e = h"
    and "timerOf t s < getSecondsPerPoint h"
  shows "scoreOf t (matchTicks engs s) = scoreOf t s + (timerOf t s + length engs) div getSecondsPerPoint h
       \<and> timerOf t (matchTicks engs s) = (timerOf t s + length engs) mod getSecondsPerPoint h"
  using assms(2,3)
proof (induction engs arbitrary: s)
  case Nil
  then show ?case by simp
next
  case (Cons e engs)
  let ?c = "getSecondsPerPoint h"
  let ?s' = "matchTick e s"
  have h: "heldOf t e = h" using Cons.prems(1) by simp
  have cpos: "0 < ?c" using Cons.prems(2) by simp
  have tm: "timerOf t ?s' = (if ?c \<le> timerOf t s + 1 then 0 else timerOf t s + 1)"
    using team_step(1) [OF assms(1), of e s] cpos by (simp add: matchTick_team h)
  have sc: "scoreOf t ?s' = (if ?c \<le> timerOf t s + 1 then scoreOf t s + 1 else scoreOf t s)"
    using team_step(2) [OF assms(1), of e s] cpos by (simp add: matchTick_team h)
  have lt: "timerOf t ?s' < ?c" using tm cpos by simp
  have ih: "scoreOf t (matchTicks engs ?s') = scoreOf t ?s' + (timerOf t ?s' + length engs) div ?c
       \<and> timerOf t (matchTicks engs ?s') = (timerOf t ?s' + length engs) mod ?c"
    using Cons.IH [of ?s'] Cons.prems(1) lt by simp
  show ?case
  proof (cases "?c \<le> timerOf t s + 1")
    case True
    then have eq: "timerOf t s + 1 = ?c" using Cons.prems(2) by simp
    have len: "timerOf t s + length (e # engs) = length engs + ?c" using eq by simp
    have d: "(timerOf t s + length (e # engs)) div ?c = length engs div ?c + 1"
      unfolding len using cpos by simp
    have m: "(timerOf t s + length (e # engs)) mod ?c = length engs mod ?c"
      unfolding len by simp
    have tm0: "timerOf t ?s' = 0" and sc1: "scoreOf t ?s' = scoreOf t s + 1"
      using tm sc True by simp_all
    show ?thesis unfolding d m using ih by (simp add: tm0 sc1)
  next
    case False
    then show ?thesis using ih tm sc by simp
  qed
qed


lemma ticks_zero_hold:
  assumes "t = 1 \<or> t = 2" and "\<forall>e \<in> set engs. heldOf t e = 0"
  shows "timerOf t (matchTicks engs s) = timerOf t s + length engs
       \<and> scoreOf t (matchTicks engs s) = scoreOf t s"
  using assms(2)
proof (induction engs arbitrary: s)
  case Nil
  then show ?case by simp
next
  case (Cons e engs)
  have h: "heldOf t e = 0" using Cons.prems by simp
  have r: "getSecondsPerPoint 0 = 0" by (simp add: getSecondsPerPoint_def)
  have "timerOf t (matchTick e s) = timerOf t s + 1" "scoreOf t (matchTick e s) = scoreOf t s"
    using team_step [OF assms(1), of e s] by (simp_all add: matchTick_team h r)
  then show ?case using Cons.IH [of "matchTick e s"] Cons.prems by simp
qed

text \<open>
  C1. For either team holding \<open>h > 0\<close> zones: a tick on which the timer reaches
  \<open>getSecondsPerPoint h\<close> adds exactly one point and leaves the timer at 0; a tick on
  which it does not leaves the score alone and advances the timer by one; and from a
  timer at 0, \<open>n\<close> ticks with \<open>h\<close> zones held add \<open>n div cadence\<close> points and leave
  the timer at \<open>n mod cadence\<close>: one point every \<open>cadence\<close> ticks.
\<close>

theorem C1_point_every_cadence_ticks:
  assumes "t = 1 \<or> t = 2" and "0 < h"
  shows "(heldOf t eng = h \<and> getSecondsPerPoint h \<le> timerOf t s + 1 \<longrightarrow>
            scoreOf t (updateTeamScores eng s) = scoreOf t s + 1
          \<and> timerOf t (updateTeamScores eng s) = 0)
       \<and> (heldOf t eng = h \<and> timerOf t s + 1 < getSecondsPerPoint h \<longrightarrow>
            scoreOf t (updateTeamScores eng s) = scoreOf t s
          \<and> timerOf t (updateTeamScores eng s) = timerOf t s + 1)
       \<and> ((\<forall>e \<in> set engs. heldOf t e = h) \<and> timerOf t s = 0 \<longrightarrow>
            scoreOf t (matchTicks engs s) = scoreOf t s + length engs div getSecondsPerPoint h
          \<and> timerOf t (matchTicks engs s) = length engs mod getSecondsPerPoint h)"
proof (intro conjI impI)
  assume a: "heldOf t eng = h \<and> getSecondsPerPoint h \<le> timerOf t s + 1"
  then have "h \<le> 3" using heldOf_le [of t eng] by simp
  then have "0 < getSecondsPerPoint h" using assms(2) by (rule rate_pos [rotated])
  then show "scoreOf t (updateTeamScores eng s) = scoreOf t s + 1"
    and "timerOf t (updateTeamScores eng s) = 0"
    using team_step [OF assms(1), of eng s] a by simp_all
next
  assume a: "heldOf t eng = h \<and> timerOf t s + 1 < getSecondsPerPoint h"
  then show "scoreOf t (updateTeamScores eng s) = scoreOf t s"
    and "timerOf t (updateTeamScores eng s) = timerOf t s + 1"
    using team_step [OF assms(1), of eng s] by simp_all
next
  assume a: "(\<forall>e \<in> set engs. heldOf t e = h) \<and> timerOf t s = 0"
  have both: "scoreOf t (matchTicks engs s) = scoreOf t s + length engs div getSecondsPerPoint h
          \<and> timerOf t (matchTicks engs s) = length engs mod getSecondsPerPoint h"
  proof (cases engs)
    case Nil
    then show ?thesis using a by simp
  next
    case (Cons e es)
    then have "heldOf t e = h" using a by simp
    then have "h \<le> 3" using heldOf_le [of t e] by simp
    then have "0 < getSecondsPerPoint h" using assms(2) by (rule rate_pos [rotated])
    then have "timerOf t s < getSecondsPerPoint h" using a by simp
    then show ?thesis using ticks_constant_hold [OF assms(1), of engs h s] a by simp
  qed
  from both show "scoreOf t (matchTicks engs s) = scoreOf t s + length engs div getSecondsPerPoint h" ..
  from both show "timerOf t (matchTicks engs s) = length engs mod getSecondsPerPoint h" ..
qed

theorem C1_point_every_cadence_ticks_witness:
  "scoreOf 2 (matchTicks (replicate 6 (exampleEngine\<lparr>ownerB := Some 2\<rparr>)) exampleWorld) = 1
   \<and> timerOf 2 (matchTicks (replicate 6 (exampleEngine\<lparr>ownerB := Some 2\<rparr>)) exampleWorld) = 0
   \<and> scoreOf 2 (matchTicks (replicate 5 (exampleEngine\<lparr>ownerB := Some 2\<rparr>)) exampleWorld) = 0"
proof -
  let ?e = "exampleEngine\<lparr>ownerB := Some 2\<rparr>"
  have held: "heldOf 2 ?e = 1"
    by (simp add: heldOf_def team2PointsHeld_def pointsHeld_def tallyZone_def exampleEngine_def)
  have t0: "timerOf 2 exampleWorld = 0" "scoreOf 2 exampleWorld = 0"
    by (simp_all add: timerOf_def scoreOf_def exampleWorld_def)
  have c: "getSecondsPerPoint (Suc 0) = 6" by (simp add: getSecondsPerPoint_def)
  show ?thesis
    using C1_point_every_cadence_ticks [of 2 1 ?e exampleWorld "replicate 6 ?e"]
      C1_point_every_cadence_ticks [of 2 1 ?e exampleWorld "replicate 5 ?e"]
      held t0 c
    by simp
qed

text \<open>
  C2. The cadence table: 3 zones give 1 second per point, 2 zones give 3 (within 3..5),
  1 zone gives 6 (within 6..10), 0 zones give 0 (no scoring); a held-count is one of
  0, 1, 2, 3; and a tick on which a team holds no zone leaves that team's score unchanged.
\<close>

theorem C2_cadence_table:
  "getSecondsPerPoint 3 = 1
   \<and> getSecondsPerPoint 2 = 3 \<and> getSecondsPerPoint 2 \<in> {3..5}
   \<and> getSecondsPerPoint 1 = 6 \<and> getSecondsPerPoint 1 \<in> {6..10}
   \<and> getSecondsPerPoint 0 = 0
   \<and> heldOf t eng \<in> {0, 1, 2, 3}
   \<and> ((t = 1 \<or> t = 2) \<and> heldOf t eng = 0 \<longrightarrow>
        scoreOf t (updateTeamScores eng s) = scoreOf t s)"
proof -
  have tab: "getSecondsPerPoint 3 = 1" "getSecondsPerPoint 2 = 3" "getSecondsPerPoint 1 = 6"
    "getSecondsPerPoint 0 = 0"
    by (simp_all add: getSecondsPerPoint_def)
  have rng: "heldOf t eng \<in> {0, 1, 2, 3}" using heldOf_le [of t eng] by auto
  have zero: "(t = 1 \<or> t = 2) \<and> heldOf t eng = 0 \<longrightarrow>
        scoreOf t (updateTeamScores eng s) = scoreOf t s"
  proof
    assume a: "(t = 1 \<or> t = 2) \<and> heldOf t eng = 0"
    then have "t = 1 \<or> t = 2" ..
    from team_step(2) [OF this, of eng s] a show "scoreOf t (updateTeamScores eng s) = scoreOf t s"
      by (simp add: tab)
  qed
  show ?thesis using tab rng zero by simp
qed

theorem C2_cadence_table_witness:
  "heldOf 1 (exampleEngine\<lparr>ownerA := Some 2\<rparr>) = 0
   \<and> scoreOf 1 (updateTeamScores (exampleEngine\<lparr>ownerA := Some 2\<rparr>) exampleWorld) = 0"
proof -
  let ?e = "exampleEngine\<lparr>ownerA := Some 2\<rparr>"
  have held: "heldOf 1 ?e = 0"
    by (simp add: heldOf_def team1PointsHeld_def pointsHeld_def tallyZone_def exampleEngine_def)
  have s0: "scoreOf 1 exampleWorld = 0" by (simp add: scoreOf_def exampleWorld_def)
  show ?thesis using C2_cadence_table [of 1 ?e exampleWorld] held s0 by simp
qed


text \<open>
  C3. A tick with no zone held advances the team's timer by one and never resets it; the
  timer is back at 0 after a tick only when that tick awarded a point; so after any number
  of ticks with no zone held the timer has grown by that number, and the first tick with
  zones held again awards at once when the carried-over count has reached the cadence.
\<close>

theorem C3_timer_not_reset_without_award:
  assumes "t = 1 \<or> t = 2"
  shows "(heldOf t eng = 0 \<longrightarrow> timerOf t (updateTeamScores eng s) = timerOf t s + 1)
       \<and> (timerOf t (updateTeamScores eng s) \<noteq> timerOf t s + 1 \<longrightarrow>
            timerOf t (updateTeamScores eng s) = 0
          \<and> scoreOf t (updateTeamScores eng s) = scoreOf t s + 1)
       \<and> (timerOf t (updateTeamScores eng s) = 0 \<longrightarrow>
            scoreOf t (updateTeamScores eng s) = scoreOf t s + 1)
       \<and> ((\<forall>e \<in> set engs. heldOf t e = 0) \<longrightarrow>
            timerOf t (matchTicks engs s) = timerOf t s + length engs
          \<and> scoreOf t (matchTicks engs s) = scoreOf t s)
       \<and> ((\<forall>e \<in> set engs. heldOf t e = 0) \<and> 0 < heldOf t eng
            \<and> getSecondsPerPoint (heldOf t eng) \<le> timerOf t s + length engs + 1 \<longrightarrow>
            scoreOf t (updateTeamScores eng (matchTicks engs s)) = scoreOf t s + 1
          \<and> timerOf t (updateTeamScores eng (matchTicks engs s)) = 0)"
proof -
  have r0: "getSecondsPerPoint 0 = 0" by (simp add: getSecondsPerPoint_def)
  note step = team_step [OF assms, of eng s]
  have a: "heldOf t eng = 0 \<longrightarrow> timerOf t (updateTeamScores eng s) = timerOf t s + 1"
    using step(1) by (simp add: r0)
  have b: "timerOf t (updateTeamScores eng s) \<noteq> timerOf t s + 1 \<longrightarrow>
            timerOf t (updateTeamScores eng s) = 0
          \<and> scoreOf t (updateTeamScores eng s) = scoreOf t s + 1"
    using step by (simp split: if_splits)
  have c: "timerOf t (updateTeamScores eng s) = 0 \<longrightarrow>
            scoreOf t (updateTeamScores eng s) = scoreOf t s + 1"
    using step by (simp split: if_splits)
  have d: "(\<forall>e \<in> set engs. heldOf t e = 0) \<longrightarrow>
            timerOf t (matchTicks engs s) = timerOf t s + length engs
          \<and> scoreOf t (matchTicks engs s) = scoreOf t s"
    using ticks_zero_hold [OF assms, of engs s] by blast
  have e: "(\<forall>e \<in> set engs. heldOf t e = 0) \<and> 0 < heldOf t eng
            \<and> getSecondsPerPoint (heldOf t eng) \<le> timerOf t s + length engs + 1 \<longrightarrow>
            scoreOf t (updateTeamScores eng (matchTicks engs s)) = scoreOf t s + 1
          \<and> timerOf t (updateTeamScores eng (matchTicks engs s)) = 0"
  proof
    assume h: "(\<forall>e \<in> set engs. heldOf t e = 0) \<and> 0 < heldOf t eng
            \<and> getSecondsPerPoint (heldOf t eng) \<le> timerOf t s + length engs + 1"
    then have z: "timerOf t (matchTicks engs s) = timerOf t s + length engs"
      "scoreOf t (matchTicks engs s) = scoreOf t s"
      using ticks_zero_hold [OF assms, of engs s] by simp_all
    have pos: "0 < getSecondsPerPoint (heldOf t eng)"
      using h heldOf_le [of t eng] by (simp add: rate_pos)
    show "scoreOf t (updateTeamScores eng (matchTicks engs s)) = scoreOf t s + 1
          \<and> timerOf t (updateTeamScores eng (matchTicks engs s)) = 0"
      using team_step [OF assms, of eng "matchTicks engs s"] h pos by (simp add: z)
  qed
  show ?thesis using a b c d e by blast
qed

theorem C3_timer_not_reset_without_award_witness:
  "timerOf 1 (matchTicks (replicate 10 exampleEngine) exampleWorld) = 10
   \<and> scoreOf 1 (matchTicks (replicate 10 exampleEngine) exampleWorld) = 0
   \<and> scoreOf 1 (updateTeamScores (exampleEngine\<lparr>ownerA := Some 1\<rparr>)
        (matchTicks (replicate 10 exampleEngine) exampleWorld)) = 1
   \<and> timerOf 1 (updateTeamScores exampleEngine exampleWorld) = 1"
proof -
  let ?e = "exampleEngine\<lparr>ownerA := Some 1\<rparr>"
  have h0: "heldOf 1 exampleEngine = 0"
    by (simp add: heldOf_def team1PointsHeld_def pointsHeld_def tallyZone_def exampleEngine_def)
  have h1: "heldOf 1 ?e = Suc 0"
    by (simp add: heldOf_def team1PointsHeld_def pointsHeld_def tallyZone_def exampleEngine_def)
  have t0: "timerOf 1 exampleWorld = 0" "scoreOf 1 exampleWorld = 0"
    by (simp_all add: timerOf_def scoreOf_def exampleWorld_def)
  have c: "getSecondsPerPoint (Suc 0) = 6" by (simp add: getSecondsPerPoint_def)
  show ?thesis
    using C3_timer_not_reset_without_award [of 1 exampleEngine exampleWorld "replicate 10 exampleEngine"]
      C3_timer_not_reset_without_award [of 1 ?e exampleWorld "replicate 10 exampleEngine"]
      h0 h1 t0 c
    by simp
qed

text \<open>What \<open>updateAllHudScores\<close> writes on one player's two score labels.\<close>

lemma widgets_updWidget:
  "widgets (updWidget n f s) m =
     (if m = n then map_option f (widgets s n) else widgets s m)"
  by (simp add: updWidget_def split: option.splits)

lemma hud_labels_show_perspective:
  assumes "playerHudMap s p = Some hud"
    and "resolves s (blueScoreName hud)" and "resolves s (redScoreName hud)"
    and "distinct [blueScoreName hud, redScoreName hud, blueBarFillName hud, redBarFillName hud]"
  shows "map_option wText (widgets (updateHudScoresOf p s) (blueScoreName hud)) =
           Some (Some (MsgScore (fst (perspective (teamOf s p) (team1Score s) (team2Score s)))))"
    and "map_option wText (widgets (updateHudScoresOf p s) (redScoreName hud)) =
           Some (Some (MsgScore (snd (perspective (teamOf s p) (team1Score s) (team2Score s)))))"
  using assms
  by (auto simp: updateHudScoresOf_def Let_def SetUITextLabel_def SetUIWidgetSize_def
      widgets_updWidget resolves_def FindUIWidgetWithName_def split: prod.splits)

text \<open>
  C4. A viewer on team 1 sees (friendly, enemy) = (s1, s2), a viewer on team 2 sees
  (s2, s1); projecting the pair a viewer sees from team 2's side again swaps it back, and
  the two viewers' pairs are each other's swap.
\<close>

theorem C4_perspective_self_inverse:
  "perspective 1 s1 s2 = (s1, s2)
   \<and> perspective 2 s1 s2 = (s2, s1)
   \<and> (case perspective 2 s1 s2 of (friendly, enemy) \<Rightarrow> perspective 2 friendly enemy) = (s1, s2)
   \<and> (case perspective 1 s1 s2 of (friendly, enemy) \<Rightarrow> perspective 2 friendly enemy)
       = perspective 2 s1 s2
   \<and> (case perspective 2 s1 s2 of (friendly, enemy) \<Rightarrow> perspective 2 friendly enemy)
       = perspective 1 s1 s2"
  by (simp add: perspective_def)

section \<open>The multi-click detector, poll by poll\<close>

lemma checkMultiClick_known:
  assumes "STATES s p = Some st"
  shows "checkMultiClick eng p s =
     (if IsInteracting eng p = lastIsInteracting st then (False, s)
      else if \<not> IsInteracting eng p
        then (False, s\<lparr>STATES := (STATES s)(p \<mapsto> st\<lparr>lastIsInteracting := False\<rparr>)\<rparr>)
      else if clickCount st = 0 \<or> (0 < clickCount st \<and> WINDOW_MS < DateNow eng - sequenceStartTime st)
        then (False, s\<lparr>STATES := (STATES s)(p \<mapsto>
                st\<lparr>lastIsInteracting := True, clickCount := 1, sequenceStartTime := DateNow eng\<rparr>)\<rparr>)
      else if clickCount st = 2
        then (True, s\<lparr>STATES := (STATES s)(p \<mapsto> st\<lparr>lastIsInteracting := True, clickCount := 0\<rparr>)\<rparr>)
      else (False, s\<lparr>STATES := (STATES s)(p \<mapsto>
                st\<lparr>lastIsInteracting := True, clickCount := clickCount st + 1\<rparr>)\<rparr>))"
proof -
  have triv: "s\<lparr>STATES := (STATES s)(p \<mapsto> st)\<rparr> = s"
    using assms by (simp add: map_upd_triv)
  have "checkMultiClick eng p s =
     (if IsInteracting eng p = lastIsInteracting st then (False, s\<lparr>STATES := (STATES s)(p \<mapsto> st)\<rparr>)
      else if \<not> IsInteracting eng p
        then (False, s\<lparr>STATES := (STATES s)(p \<mapsto> st\<lparr>lastIsInteracting := False\<rparr>)\<rparr>)
      else if clickCount st = 0 \<or> (0 < clickCount st \<and> WINDOW_MS < DateNow eng - sequenceStartTime st)
        then (False, s\<lparr>STATES := (STATES s)(p \<mapsto>
                st\<lparr>lastIsInteracting := True, clickCount := 1, sequenceStartTime := DateNow eng\<rparr>)\<rparr>)
      else if clickCount st = 2
        then (True, s\<lparr>STATES := (STATES s)(p \<mapsto> st\<lparr>lastIsInteracting := True, clickCount := 0\<rparr>)\<rparr>)
      else (False, s\<lparr>STATES := (STATES s)(p \<mapsto>
                st\<lparr>lastIsInteracting := True, clickCount := clickCount st + 1\<rparr>)\<rparr>))"
    unfolding checkMultiClick_def Let_def REQUIRED_CLICKS_def
    by (cases st) (auto simp: assms)
  then show ?thesis by (simp only: triv)
qed

lemma checkMultiClick_fresh:
  assumes "STATES s p = None"
  shows "checkMultiClick eng p s =
     (False, s\<lparr>STATES := (STATES s)(p \<mapsto>
        \<lparr>lastIsInteracting = IsInteracting eng p, clickCount = 0, sequenceStartTime = 0\<rparr>)\<rparr>)"
  using assms by (simp add: checkMultiClick_def Let_def)


lemma checkMultiClick_the:
  assumes "STATES s p \<noteq> None"
  shows "checkMultiClick eng p s =
     (let st = the (STATES s p) in
      if IsInteracting eng p = lastIsInteracting st then (False, s)
      else if \<not> IsInteracting eng p
        then (False, s\<lparr>STATES := (STATES s)(p \<mapsto> st\<lparr>lastIsInteracting := False\<rparr>)\<rparr>)
      else if clickCount st = 0 \<or> (0 < clickCount st \<and> WINDOW_MS < DateNow eng - sequenceStartTime st)
        then (False, s\<lparr>STATES := (STATES s)(p \<mapsto>
                st\<lparr>lastIsInteracting := True, clickCount := 1, sequenceStartTime := DateNow eng\<rparr>)\<rparr>)
      else if clickCount st = 2
        then (True, s\<lparr>STATES := (STATES s)(p \<mapsto> st\<lparr>lastIsInteracting := True, clickCount := 0\<rparr>)\<rparr>)
      else (False, s\<lparr>STATES := (STATES s)(p \<mapsto>
                st\<lparr>lastIsInteracting := True, clickCount := clickCount st + 1\<rparr>)\<rparr>))"
proof -
  from assms obtain st where st: "STATES s p = Some st" by blast
  show ?thesis unfolding checkMultiClick_known [OF st] by (simp add: st)
qed

lemma three_presses:
  assumes "STATES w p = None" and "t2 - t1 \<le> 2000" and "t3 - t1 \<le> 2000"
  shows "fst (pollAll eng p [(False, u0), (True, t1), (False, u1), (True, t2), (False, u2),
                             (True, t3), (False, u3), (True, t4)] w)
           = [False, False, False, False, False, True, False, False]
       \<and> map_option clickCount
           (STATES (snd (pollAll eng p [(False, u0), (True, t1), (False, u1), (True, t2),
                                        (False, u2), (True, t3), (False, u3), (True, t4)] w)) p)
           = Some 1"
  using assms
  by (simp add: checkMultiClick_fresh checkMultiClick_the WINDOW_MS_def Let_def)


lemma pollAll_refines:
  "STATES s p = Some st \<Longrightarrow>
     fst (pollAll eng p samples s) =
       specCountPresses (clickCount st) (sequenceStartTime st)
         (specRisingEdges (lastIsInteracting st) samples)"
proof (induction samples arbitrary: s st)
  case Nil
  then show ?case by simp
next
  case (Cons x xs)
  obtain b t where x: "x = (b, t)" by (cases x)
  let ?e = "eng\<lparr>IsInteracting := (IsInteracting eng)(p := b), DateNow := t\<rparr>"
  obtain r s1 where c: "checkMultiClick ?e p s = (r, s1)" by (cases "checkMultiClick ?e p s")
  note k = c [unfolded checkMultiClick_known [OF Cons.prems, of ?e]]
  have step: "fst (pollAll eng p (x # xs) s) = r # fst (pollAll eng p xs s1)"
    by (simp add: x c split: prod.splits)
  consider (same) "b = lastIsInteracting st"
    | (fall) "b \<noteq> lastIsInteracting st" "\<not> b"
    | (restart) "\<not> lastIsInteracting st" "b"
        "clickCount st = 0 \<or> (0 < clickCount st \<and> WINDOW_MS < t - sequenceStartTime st)"
    | (fire) "\<not> lastIsInteracting st" "b"
        "\<not> (clickCount st = 0 \<or> (0 < clickCount st \<and> WINDOW_MS < t - sequenceStartTime st))"
        "clickCount st = 2"
    | (count) "\<not> lastIsInteracting st" "b"
        "\<not> (clickCount st = 0 \<or> (0 < clickCount st \<and> WINDOW_MS < t - sequenceStartTime st))"
        "clickCount st \<noteq> 2"
    by blast
  then show ?case
  proof cases
    case same
    then have r: "r = False" "s1 = s" using k by simp_all
    show ?thesis unfolding step r using Cons.IH [OF Cons.prems] same by (simp add: x)
  next
    case fall
    then have r: "r = False" and s1: "STATES s1 p = Some (st\<lparr>lastIsInteracting := False\<rparr>)"
      using k by auto
    show ?thesis unfolding step r using Cons.IH [OF s1] fall by (simp add: x)
  next
    case restart
    then have r: "r = False" and s1: "STATES s1 p = Some (st\<lparr>lastIsInteracting := True,
        clickCount := 1, sequenceStartTime := t\<rparr>)"
      using k by auto
    show ?thesis unfolding step r using Cons.IH [OF s1] restart
      by (auto simp: x WINDOW_MS_def Let_def)
  next
    case fire
    then have r: "r = True" and s1: "STATES s1 p = Some (st\<lparr>lastIsInteracting := True,
        clickCount := 0\<rparr>)"
      using k by auto
    show ?thesis unfolding step r using Cons.IH [OF s1] fire
      by (auto simp: x WINDOW_MS_def Let_def)
  next
    case count
    then have r: "r = False" and s1: "STATES s1 p = Some (st\<lparr>lastIsInteracting := True,
        clickCount := clickCount st + 1\<rparr>)"
      using k by auto
    show ?thesis unfolding step r using Cons.IH [OF s1] count
      by (auto simp: x WINDOW_MS_def Let_def)
  qed
qed

lemma pollAll_refines_fresh:
  assumes "STATES w p = None"
  shows "fst (pollAll eng p ((b, t) # samples) w) =
           False # specCountPresses 0 0 (specRisingEdges b samples)"
proof -
  let ?e = "eng\<lparr>IsInteracting := (IsInteracting eng)(p := b), DateNow := t\<rparr>"
  let ?st = "\<lparr>lastIsInteracting = b, clickCount = 0, sequenceStartTime = 0\<rparr>"
  let ?w1 = "w\<lparr>STATES := (STATES w)(p \<mapsto> ?st)\<rparr>"
  have c: "checkMultiClick ?e p w = (False, ?w1)"
    using checkMultiClick_fresh [OF assms, of ?e] by simp
  have s1: "STATES ?w1 p = Some ?st" by simp
  have "fst (pollAll eng p ((b, t) # samples) w) = False # fst (pollAll eng p samples ?w1)"
    by (simp add: c split: prod.splits)
  then show ?thesis using pollAll_refines [OF s1, of eng samples] by simp
qed

lemma held_press:
  assumes "STATES w p = None"
  shows "fst (pollAll eng p [(False, u0), (True, t1), (True, t2), (True, t3)] w)
           = [False, False, False, False]"
  unfolding pollAll_refines_fresh [OF assms] by simp

lemma three_presses_exact:
  assumes "STATES w p = None"
  shows "fst (pollAll eng p [(False, u0), (True, t1), (False, u1), (True, t2), (False, u2),
                             (True, t3)] w)
           = [False, False, False, False, False, t2 - t1 \<le> 2000 \<and> t3 - t1 \<le> 2000]"
  unfolding pollAll_refines_fresh [OF assms] by (auto simp: Let_def)

text \<open>
  C5. One poll of the detector for a player it already tracks. It reports a completed
  gesture exactly on a rising edge that finds two presses counted and arrives within
  2000 ms of the sequence's first press, and the count is 0 afterwards. A rising edge
  that finds the count at 0 (the first press of a sequence, also the press right after a
  completed gesture) reports nothing and starts a sequence at count 1 with the window
  opened now; so does a rising edge that arrives after the window has elapsed. A second
  press inside the window reports nothing and counts 2. An unchanged sample changes
  nothing and a falling edge leaves the count alone; neither reports. A count
  between 0 and 2 stays between 0 and 2. After every poll the remembered signal is the
  sample just read. For every sequence of samples, what the polls report is what the
  specification's detector reports: presses are the samples that are high after a low
  one, and the gesture is reported on the third press of a sequence inside the window.
  Polled from scratch, presses at t1, t2, t3 report the gesture on the third press exactly
  when t2 and t3 are within 2000 ms of t1, a fourth press then leaves the count at 1, and
  one press held over three polls reports nothing.
\<close>

theorem C5_multi_click_detector:
  assumes "STATES s p = Some st" and "checkMultiClick eng p s = (gesture, s')"
  shows "WINDOW_MS = 2000 \<and> REQUIRED_CLICKS = 3
    \<and> (gesture \<longleftrightarrow> IsInteracting eng p \<and> \<not> lastIsInteracting st \<and> clickCount st = 2
                    \<and> DateNow eng - sequenceStartTime st \<le> WINDOW_MS)
    \<and> (gesture \<longrightarrow> map_option clickCount (STATES s' p) = Some 0)
    \<and> (IsInteracting eng p \<and> \<not> lastIsInteracting st \<and> clickCount st = 0 \<longrightarrow>
          \<not> gesture \<and> map_option clickCount (STATES s' p) = Some 1
          \<and> map_option sequenceStartTime (STATES s' p) = Some (DateNow eng))
    \<and> (IsInteracting eng p \<and> \<not> lastIsInteracting st \<and> 0 < clickCount st
          \<and> WINDOW_MS < DateNow eng - sequenceStartTime st \<longrightarrow>
          \<not> gesture \<and> map_option clickCount (STATES s' p) = Some 1
          \<and> map_option sequenceStartTime (STATES s' p) = Some (DateNow eng))
    \<and> (IsInteracting eng p \<and> \<not> lastIsInteracting st \<and> clickCount st = 1
          \<and> DateNow eng - sequenceStartTime st \<le> WINDOW_MS \<longrightarrow>
          \<not> gesture \<and> map_option clickCount (STATES s' p) = Some 2
          \<and> map_option sequenceStartTime (STATES s' p) = Some (sequenceStartTime st))
    \<and> (IsInteracting eng p = lastIsInteracting st \<longrightarrow> \<not> gesture \<and> s' = s)
    \<and> (\<not> IsInteracting eng p \<longrightarrow>
          \<not> gesture \<and> map_option clickCount (STATES s' p) = Some (clickCount st))
    \<and> (0 \<le> clickCount st \<and> clickCount st \<le> 2 \<longrightarrow>
          (\<exists>st'. STATES s' p = Some st' \<and> 0 \<le> clickCount st' \<and> clickCount st' \<le> 2))
    \<and> (STATES w p = None \<and> t2 - t1 \<le> 2000 \<and> t3 - t1 \<le> 2000 \<longrightarrow>
          fst (pollAll eng p [(False, u0), (True, t1), (False, u1), (True, t2), (False, u2),
                              (True, t3), (False, u3), (True, t4)] w)
            = [False, False, False, False, False, True, False, False]
          \<and> map_option clickCount
              (STATES (snd (pollAll eng p [(False, u0), (True, t1), (False, u1), (True, t2),
                                           (False, u2), (True, t3), (False, u3), (True, t4)] w)) p)
              = Some 1)
    \<and> map_option lastIsInteracting (STATES s' p) = Some (IsInteracting eng p)
    \<and> fst (pollAll eng p samples s)
        = specCountPresses (clickCount st) (sequenceStartTime st)
            (specRisingEdges (lastIsInteracting st) samples)
    \<and> (STATES w p = None \<longrightarrow>
          fst (pollAll eng p ((b, t) # samples) w)
            = False # specCountPresses 0 0 (specRisingEdges b samples))
    \<and> (STATES w p = None \<longrightarrow>
          fst (pollAll eng p [(False, u0), (True, t1), (True, t2), (True, t3)] w)
            = [False, False, False, False])
    \<and> (STATES w p = None \<longrightarrow>
          fst (pollAll eng p [(False, u0), (True, t1), (False, u1), (True, t2), (False, u2),
                              (True, t3)] w)
            = [False, False, False, False, False, t2 - t1 \<le> 2000 \<and> t3 - t1 \<le> 2000])"
proof -
  note r = assms(2) [unfolded checkMultiClick_known [OF assms(1)]]
  have c_window: "WINDOW_MS = 2000" by (simp add: WINDOW_MS_def)
  have c_required: "REQUIRED_CLICKS = 3" by (simp add: REQUIRED_CLICKS_def)
  have c_fires: "gesture \<longleftrightarrow> IsInteracting eng p \<and> \<not> lastIsInteracting st \<and> clickCount st = 2
                    \<and> DateNow eng - sequenceStartTime st \<le> WINDOW_MS"
    using r by (auto split: if_splits)
  have c_after: "gesture \<longrightarrow> map_option clickCount (STATES s' p) = Some 0"
    using r by (auto split: if_splits)
  have c_first: "IsInteracting eng p \<and> \<not> lastIsInteracting st \<and> clickCount st = 0 \<longrightarrow>
          \<not> gesture \<and> map_option clickCount (STATES s' p) = Some 1
          \<and> map_option sequenceStartTime (STATES s' p) = Some (DateNow eng)"
    using r by (auto split: if_splits)
  have c_late: "IsInteracting eng p \<and> \<not> lastIsInteracting st \<and> 0 < clickCount st
          \<and> WINDOW_MS < DateNow eng - sequenceStartTime st \<longrightarrow>
          \<not> gesture \<and> map_option clickCount (STATES s' p) = Some 1
          \<and> map_option sequenceStartTime (STATES s' p) = Some (DateNow eng)"
    using r by (auto split: if_splits)
  have c_second: "IsInteracting eng p \<and> \<not> lastIsInteracting st \<and> clickCount st = 1
          \<and> DateNow eng - sequenceStartTime st \<le> WINDOW_MS \<longrightarrow>
          \<not> gesture \<and> map_option clickCount (STATES s' p) = Some 2
          \<and> map_option sequenceStartTime (STATES s' p) = Some (sequenceStartTime st)"
    using r by (auto split: if_splits)
  have c_same: "IsInteracting eng p = lastIsInteracting st \<longrightarrow> \<not> gesture \<and> s' = s"
    using r by (auto split: if_splits)
  have c_falling: "\<not> IsInteracting eng p \<longrightarrow>
          \<not> gesture \<and> map_option clickCount (STATES s' p) = Some (clickCount st)"
    using r assms(1) by (auto split: if_splits)
  have c_range: "0 \<le> clickCount st \<and> clickCount st \<le> 2 \<longrightarrow>
          (\<exists>st'. STATES s' p = Some st' \<and> 0 \<le> clickCount st' \<and> clickCount st' \<le> 2)"
    using r assms(1) by (auto split: if_splits)
  have c_run: "STATES w p = None \<and> t2 - t1 \<le> 2000 \<and> t3 - t1 \<le> 2000 \<longrightarrow>
          fst (pollAll eng p [(False, u0), (True, t1), (False, u1), (True, t2), (False, u2),
                              (True, t3), (False, u3), (True, t4)] w)
            = [False, False, False, False, False, True, False, False]
          \<and> map_option clickCount
              (STATES (snd (pollAll eng p [(False, u0), (True, t1), (False, u1), (True, t2),
                                           (False, u2), (True, t3), (False, u3), (True, t4)] w)) p)
              = Some 1"
    using three_presses [of w p t2 t1 t3 eng u0 u1 u2 u3 t4] by blast
  have c_last: "map_option lastIsInteracting (STATES s' p) = Some (IsInteracting eng p)"
    using r assms(1) by (auto split: if_splits)
  have c_refines: "fst (pollAll eng p samples s)
        = specCountPresses (clickCount st) (sequenceStartTime st)
            (specRisingEdges (lastIsInteracting st) samples)"
    by (rule pollAll_refines [OF assms(1)])
  have c_fresh: "STATES w p = None \<longrightarrow>
          fst (pollAll eng p ((b, t) # samples) w)
            = False # specCountPresses 0 0 (specRisingEdges b samples)"
    using pollAll_refines_fresh [of w p eng b t samples] by blast
  have c_held: "STATES w p = None \<longrightarrow>
          fst (pollAll eng p [(False, u0), (True, t1), (True, t2), (True, t3)] w)
            = [False, False, False, False]"
    using held_press [of w p eng u0 t1 t2 t3] by blast
  have c_exact: "STATES w p = None \<longrightarrow>
          fst (pollAll eng p [(False, u0), (True, t1), (False, u1), (True, t2), (False, u2),
                              (True, t3)] w)
            = [False, False, False, False, False, t2 - t1 \<le> 2000 \<and> t3 - t1 \<le> 2000]"
    using three_presses_exact [of w p eng u0 t1 u1 t2 u2 t3] by blast
  show ?thesis
    using c_window c_required c_fires c_after c_first c_late c_second c_same c_falling
      c_range c_run c_last c_refines c_fresh c_held c_exact
    by - (intro conjI; assumption)
qed


theorem C5_multi_click_detector_witness:
  "checkMultiClick (exampleEngine\<lparr>IsInteracting := (\<lambda>p. True), DateNow := 1200\<rparr>) 7
     (exampleWorld\<lparr>STATES := [7 \<mapsto> \<lparr>lastIsInteracting = False, clickCount = 2,
                                       sequenceStartTime = 0\<rparr>]\<rparr>)
   = (True, exampleWorld\<lparr>STATES := [7 \<mapsto> \<lparr>lastIsInteracting = True, clickCount = 0,
                                              sequenceStartTime = 0\<rparr>]\<rparr>)
   \<and> fst (pollAll (exampleEngine\<lparr>IsInteracting := (\<lambda>p. True), DateNow := 1200\<rparr>) 7
            [(False, 0), (True, 0), (False, 100), (True, 500), (False, 600),
             (True, 1200), (False, 1300), (True, 1400)] exampleWorld)
       = [False, False, False, False, False, True, False, False]
   \<and> fst (pollAll (exampleEngine\<lparr>IsInteracting := (\<lambda>p. True), DateNow := 1200\<rparr>) 7
            [(False, 0), (True, 0), (True, 500), (True, 1200)] exampleWorld)
       = [False, False, False, False]"
proof -
  let ?eng = "exampleEngine\<lparr>IsInteracting := (\<lambda>p. True), DateNow := 1200\<rparr>"
  let ?st = "\<lparr>lastIsInteracting = False, clickCount = 2, sequenceStartTime = 0\<rparr>"
  let ?s = "exampleWorld\<lparr>STATES := [7 \<mapsto> ?st]\<rparr>"
  let ?s' = "exampleWorld\<lparr>STATES := [7 \<mapsto> \<lparr>lastIsInteracting = True, clickCount = 0,
                                              sequenceStartTime = 0\<rparr>]\<rparr>"
  have h1: "STATES ?s 7 = Some ?st" by simp
  have h2: "checkMultiClick ?eng 7 ?s = (True, ?s')"
    by (simp add: checkMultiClick_def Let_def WINDOW_MS_def REQUIRED_CLICKS_def)
  have h3: "STATES exampleWorld 7 = None" by (simp add: exampleWorld_def)
  show ?thesis
    using C5_multi_click_detector [OF h1 h2, of exampleWorld 500 0 1200 0 100 600 1300 1400
        "[]" False 0] h2 h3
    by (simp del: pollAll.simps)
qed

section \<open>The team-switch panel: button events and the timeout\<close>

lemma updWidget_frame [simp]:
  "playerTeamSwitchUiMap (updWidget n f s) = playerTeamSwitchUiMap s"
  "teamOf (updWidget n f s) = teamOf s"
  "commands (updWidget n f s) = commands s"
  "STATES (updWidget n f s) = STATES s"
  "playerHudMap (updWidget n f s) = playerHudMap s"
  by (simp_all add: updWidget_def split: option.splits)

lemma issue_frame [simp]:
  "playerTeamSwitchUiMap (issue c s) = playerTeamSwitchUiMap s"
  "teamOf (issue c s) = teamOf s"
  "commands (issue c s) = commands s @ [c]"
  "STATES (issue c s) = STATES s"
  "playerHudMap (issue c s) = playerHudMap s"
  "widgets (issue c s) = widgets s"
  by (simp_all add: issue_def)

lemma isVisible_updWidget:
  "isVisible (updWidget n (\<lambda>w. w\<lparr>wVisible := v\<rparr>) s) m =
     (if m = n \<and> widgets s n \<noteq> None then v else isVisible s m)"
  by (auto simp: isVisible_def updWidget_def split: option.splits)

lemma isVisible_SetUIWidgetVisible:
  "isVisible (SetUIWidgetVisible n v s) m = (if m = n \<and> resolves s n then v else isVisible s m)"
  by (simp add: SetUIWidgetVisible_def isVisible_updWidget resolves_def FindUIWidgetWithName_def)

lemma isVisible_unresolved: "\<not> resolves s n \<Longrightarrow> \<not> isVisible s n"
  by (simp add: resolves_def FindUIWidgetWithName_def isVisible_def)

lemma isVisible_hide: "isVisible (SetUIWidgetVisible n False s) m = (m \<noteq> n \<and> isVisible s m)"
  by (cases "resolves s n") (auto simp: isVisible_SetUIWidgetVisible isVisible_unresolved)

lemma SetUIWidgetVisible_frame [simp]:
  "playerTeamSwitchUiMap (SetUIWidgetVisible n v s) = playerTeamSwitchUiMap s"
  "teamOf (SetUIWidgetVisible n v s) = teamOf s"
  "commands (SetUIWidgetVisible n v s) = commands s"
  "STATES (SetUIWidgetVisible n v s) = STATES s"
  "playerHudMap (SetUIWidgetVisible n v s) = playerHudMap s"
  by (simp_all add: SetUIWidgetVisible_def)

lemma isVisible_cong: "widgets s = widgets s' \<Longrightarrow> isVisible s m = isVisible s' m"
  by (simp add: isVisible_def)

lemma hidePanel:
  assumes "playerTeamSwitchUiMap s p = Some ui"
  shows "playerTeamSwitchUiMap (setTeamSwitchPanelVisible eng p False s) =
           (playerTeamSwitchUiMap s)(p \<mapsto> ui\<lparr>panelVisible := False, panelOpenedAt := - 1000\<rparr>)"
    and "teamOf (setTeamSwitchPanelVisible eng p False s) = teamOf s"
    and "commands (setTeamSwitchPanelVisible eng p False s) = commands s @ [EnableUIInputMode False p]"
    and "STATES (setTeamSwitchPanelVisible eng p False s) = STATES s"
    and "\<not> isVisible (setTeamSwitchPanelVisible eng p False s) (panelName ui)"
proof -
  let ?s8 = "SetUIWidgetVisible (closeTextName ui) False
              (SetUIWidgetVisible (team2TextName ui) False
                (SetUIWidgetVisible (team1TextName ui) False
                  (SetUIWidgetVisible (closeButtonName ui) False
                    (SetUIWidgetVisible (team2ButtonName ui) False
                      (SetUIWidgetVisible (team1ButtonName ui) False
                        (SetUIWidgetVisible (panelLabelName ui) False
                          (SetUIWidgetVisible (panelName ui) False s)))))))"
  have eq: "setTeamSwitchPanelVisible eng p False s =
        issue (EnableUIInputMode False p)
          (?s8\<lparr>playerTeamSwitchUiMap := (playerTeamSwitchUiMap ?s8)(p \<mapsto>
                  ui\<lparr>panelVisible := False, panelOpenedAt := - 1000\<rparr>)\<rparr>)"
    using assms by (simp add: setTeamSwitchPanelVisible_def Let_def)
  show "playerTeamSwitchUiMap (setTeamSwitchPanelVisible eng p False s) =
           (playerTeamSwitchUiMap s)(p \<mapsto> ui\<lparr>panelVisible := False, panelOpenedAt := - 1000\<rparr>)"
    unfolding eq by simp
  show "teamOf (setTeamSwitchPanelVisible eng p False s) = teamOf s"
    unfolding eq by simp
  show "commands (setTeamSwitchPanelVisible eng p False s) = commands s @ [EnableUIInputMode False p]"
    unfolding eq by simp
  show "STATES (setTeamSwitchPanelVisible eng p False s) = STATES s"
    unfolding eq by simp
  have "\<not> isVisible ?s8 (panelName ui)"
    by (simp add: isVisible_hide)
  moreover have "isVisible (setTeamSwitchPanelVisible eng p False s) (panelName ui)
       = isVisible ?s8 (panelName ui)"
    unfolding eq by (rule isVisible_cong) simp
  ultimately show "\<not> isVisible (setTeamSwitchPanelVisible eng p False s) (panelName ui)"
    by simp
qed

text \<open>
  C10. For a player with no team-switch entry, or whose panel is not visible, a UI button
  event of any kind on any widget returns the world as it was: no team is reassigned, no
  command is issued, the registry and the widget table are untouched.
\<close>

theorem C10_hidden_panel_ignores_buttons:
  assumes "playerTeamSwitchUiMap s p = None
           \<or> (\<exists>ui. playerTeamSwitchUiMap s p = Some ui \<and> \<not> panelVisible ui)"
  shows "OnPlayerUIButtonEvent eng p eventUIWidget ev s = s
       \<and> teamOf (OnPlayerUIButtonEvent eng p eventUIWidget ev s) = teamOf s
       \<and> commands (OnPlayerUIButtonEvent eng p eventUIWidget ev s) = commands s
       \<and> playerTeamSwitchUiMap (OnPlayerUIButtonEvent eng p eventUIWidget ev s)
           = playerTeamSwitchUiMap s
       \<and> widgets (OnPlayerUIButtonEvent eng p eventUIWidget ev s) = widgets s"
proof -
  have "OnPlayerUIButtonEvent eng p eventUIWidget ev s = s"
    using assms by (auto simp: OnPlayerUIButtonEvent_def Let_def)
  then show ?thesis by simp
qed

theorem C10_hidden_panel_ignores_buttons_witness:
  "OnPlayerUIButtonEvent exampleEngine 7 ''HUD_TEAM_SWITCH_T2_7'' ButtonUp closedPanelWorld
     = closedPanelWorld
   \<and> OnPlayerUIButtonEvent exampleEngine 7 ''HUD_TEAM_SWITCH_T2_7'' ButtonUp exampleWorld
     = exampleWorld"
proof -
  have a: "\<exists>ui. playerTeamSwitchUiMap closedPanelWorld 7 = Some ui \<and> \<not> panelVisible ui"
    by (simp add: closedPanelWorld_def exampleSwitchUi_def)
  have b: "playerTeamSwitchUiMap exampleWorld 7 = None"
    by (simp add: exampleWorld_def)
  show ?thesis
    using C10_hidden_panel_ignores_buttons [of closedPanelWorld 7 exampleEngine
        "''HUD_TEAM_SWITCH_T2_7''" ButtonUp]
      C10_hidden_panel_ignores_buttons [of exampleWorld 7 exampleEngine
        "''HUD_TEAM_SWITCH_T2_7''" ButtonUp] a b
    by blast
qed


lemma updateTeamSwitchButtonState_frame [simp]:
  "playerTeamSwitchUiMap (updateTeamSwitchButtonState p s) = playerTeamSwitchUiMap s"
  "teamOf (updateTeamSwitchButtonState p s) = teamOf s"
  "widgets (updateTeamSwitchButtonState p s) = widgets s"
  "STATES (updateTeamSwitchButtonState p s) = STATES s"
  "undeploysOf q (updateTeamSwitchButtonState p s) = undeploysOf q s"
  by (simp_all add: updateTeamSwitchButtonState_def undeploysOf_def split: option.splits)

lemma enableIfResolves_frame [simp]:
  "playerTeamSwitchUiMap (enableIfResolves n s) = playerTeamSwitchUiMap s"
  "teamOf (enableIfResolves n s) = teamOf s"
  "widgets (enableIfResolves n s) = widgets s"
  "STATES (enableIfResolves n s) = STATES s"
  "undeploysOf q (enableIfResolves n s) = undeploysOf q s"
  by (simp_all add: enableIfResolves_def undeploysOf_def)

lemma setPanel_map:
  assumes "playerTeamSwitchUiMap s p = Some ui"
  shows "playerTeamSwitchUiMap (setTeamSwitchPanelVisible eng p v s) =
           (playerTeamSwitchUiMap s)(p \<mapsto> ui\<lparr>panelVisible := v,
              panelOpenedAt := (if v then GetMatchTimeElapsed eng else - 1000)\<rparr>)"
  using assms by (simp add: setTeamSwitchPanelVisible_def Let_def)

lemma setPanel_none:
  "playerTeamSwitchUiMap s p = None \<Longrightarrow> setTeamSwitchPanelVisible eng p v s = s"
  by (simp add: setTeamSwitchPanelVisible_def)

lemma panelState_setPanel:
  assumes "playerTeamSwitchUiMap s p = Some ui"
  shows "panelState p (setTeamSwitchPanelVisible eng p v s) =
           Some (v, if v then GetMatchTimeElapsed eng else - 1000)"
  by (simp add: panelState_def setPanel_map [OF assms])

lemma checkMultiClick_frame:
  "playerTeamSwitchUiMap (snd (checkMultiClick eng p s)) = playerTeamSwitchUiMap s"
  "widgets (snd (checkMultiClick eng p s)) = widgets s"
  "teamOf (snd (checkMultiClick eng p s)) = teamOf s"
  "commands (snd (checkMultiClick eng p s)) = commands s"
  by (simp_all add: checkMultiClick_def Let_def)

lemma ensure_frame:
  "panelState q (ensureTeamSwitchInteractPoint eng p s) = panelState q s"
  "widgets (ensureTeamSwitchInteractPoint eng p s) = widgets s"
  by (auto simp: ensureTeamSwitchInteractPoint_def panelState_def Let_def
      split: option.splits)

lemma remove_frame:
  "panelState q (removeTeamSwitchInteractPoint eng p s) = panelState q s"
  "widgets (removeTeamSwitchInteractPoint eng p s) = widgets s"
  by (auto simp: removeTeamSwitchInteractPoint_def panelState_def Let_def
      split: option.splits)


lemma panelState_Some:
  "playerTeamSwitchUiMap s p = Some ui \<Longrightarrow> panelState p s = Some (panelVisible ui, panelOpenedAt ui)"
  by (simp add: panelState_def)

lemma OngoingPlayer_tail:
  "panelState q (if isPlayerLikelyDeployed eng p
                 then ensureTeamSwitchInteractPoint eng p s
                 else removeTeamSwitchInteractPoint eng p s) = panelState q s"
  "isVisible (if isPlayerLikelyDeployed eng p
              then ensureTeamSwitchInteractPoint eng p s
              else removeTeamSwitchInteractPoint eng p s) n = isVisible s n"
  by (simp_all add: ensure_frame remove_frame isVisible_def)

text \<open>Rounding to a double never takes a value of at least 16 below 16.\<close>

lemma pow2_powi: "pow2 k = 2 powi k"
  by (simp add: pow2_def power_int_def field_simps)

lemma pow2_pos: "0 < pow2 k"
  by (simp add: pow2_powi)

lemma bitLength_bounds: "0 < n \<Longrightarrow> 2 ^ (bitLength n - 1) \<le> n \<and> n < 2 ^ bitLength n"
proof (induction n rule: bitLength.induct)
  case (1 n)
  show ?case
  proof (cases "n div 2 = 0")
    case True
    then have "n = 1" using 1(2) by auto
    then show ?thesis by (simp add: bitLength.simps)
  next
    case False
    then have ih: "2 ^ (bitLength (n div 2) - 1) \<le> n div 2 \<and> n div 2 < 2 ^ bitLength (n div 2)"
      using 1 by simp
    have bl: "bitLength n = Suc (bitLength (n div 2))"
      using 1(2) by (subst bitLength.simps) simp
    have pos: "0 < bitLength (n div 2)"
      using False by (subst bitLength.simps) simp
    then obtain k where k: "bitLength (n div 2) = Suc k" by (cases "bitLength (n div 2)") auto
    have "2 * 2 ^ k \<le> n" using ih k by simp linarith
    moreover have "n < 2 * 2 ^ Suc k" using ih k by simp linarith
    ultimately show ?thesis by (simp add: bl k)
  qed
qed

lemma roundHalfEven_ge_floor: "\<lfloor>q\<rfloor> \<le> roundHalfEven q"
  by (simp add: roundHalfEven_def Let_def)

lemma roundToDouble_ge_16:
  assumes "16 \<le> x"
  shows "16 \<le> roundToDouble x"
proof -
  define n where "n = nat \<lfloor>x\<rfloor>"
  define k where "k = bitLength n"
  have x1: "1 \<le> x" and xabs: "\<bar>x\<bar> = x" using assms by simp_all
  have "(16::int) \<le> \<lfloor>x\<rfloor>" using assms by (simp add: le_floor_iff)
  then have n16: "16 \<le> n" unfolding n_def by linarith
  then have npos: "0 < n" by linarith
  from bitLength_bounds [OF npos] have lo: "2 ^ (k - 1) \<le> n" and hi: "n < 2 ^ k"
    unfolding k_def by simp_all
  have "(2::nat) ^ 4 < 2 ^ k" using n16 hi by simp
  then have k5: "4 < k" by (simp only: power_strict_increasing_iff) 
  define e where "e = int k - 1"
  have e: "floorLog2 \<bar>x\<bar> = e"
    unfolding xabs e_def k_def n_def using x1 by (simp add: floorLog2_def)
  have e4: "4 \<le> e" using k5 by (simp add: e_def)
  have emax: "max e (- 1022) = e" using e4 by simp
  define ulp where "ulp = pow2 (e - 52)"
  have ulp: "0 < ulp" unfolding ulp_def by (rule pow2_pos)
  have pe: "pow2 e = 2 ^ (k - 1)" using k5 by (simp add: pow2_def e_def nat_diff_distrib')
  have nx: "real n \<le> x"
  proof -
    have "0 \<le> \<lfloor>x\<rfloor>" using x1 by simp
    then have "real n = of_int \<lfloor>x\<rfloor>" unfolding n_def by simp
    then show ?thesis by simp
  qed
  have "real (2 ^ (k - 1)) \<le> real n" using lo by (simp only: of_nat_le_iff)
  then have "(2::real) ^ (k - 1) \<le> real n" by simp
  then have "(2::real) ^ (k - 1) \<le> x" using nx by (rule order_trans)
  then have lox: "pow2 e \<le> x" by (simp only: pe)
  have split: "pow2 e = 2 ^ 52 * ulp"
  proof -
    have "(2::real) powi e = 2 powi (52 + (e - 52))" by simp
    also have "\<dots> = 2 powi 52 * 2 powi (e - 52)" by (subst power_int_add) simp_all
    finally show ?thesis by (simp add: pow2_powi ulp_def)
  qed
  have "2 ^ 52 * ulp \<le> x" using lox split by simp
  then have q: "2 ^ 52 \<le> x / ulp" using ulp by (simp add: pos_le_divide_eq)
  have "(2::int) ^ 52 \<le> \<lfloor>x / ulp\<rfloor>" using q by (simp add: le_floor_iff)
  then have r: "(2::int) ^ 52 \<le> roundHalfEven (x / ulp)"
    using roundHalfEven_ge_floor [of "x / ulp"] by linarith
  have r': "(2::real) ^ 52 \<le> of_int (roundHalfEven (x / ulp))"
  proof -
    have "of_int ((2::int) ^ 52) \<le> (of_int (roundHalfEven (x / ulp)) :: real)"
      using r by (simp only: of_int_le_iff)
    then show ?thesis by simp
  qed
  have "(2::real) ^ 4 \<le> 2 ^ (k - 1)" using k5 by (intro power_increasing) simp_all
  then have "16 \<le> pow2 e" by (simp add: pe)
  also have "pow2 e = 2 ^ 52 * ulp" by (rule split)
  also have "\<dots> \<le> of_int (roundHalfEven (x / ulp)) * ulp"
    using r' ulp by (simp add: mult_right_mono)
  also have "\<dots> = roundToDouble x"
  proof -
    have x0: "x \<noteq> 0" using x1 by simp
    show ?thesis unfolding roundToDouble_def Let_def e emax ulp_def using x0 by simp
  qed
  finally show ?thesis .
qed

lemma doubleSub_self [simp]: "doubleSub x x = 0"
  by (simp add: doubleSub_def roundToDouble_def)

lemma OngoingPlayer_timeout:
  assumes valid: "IsPlayerValid eng p"
    and entry: "playerTeamSwitchUiMap s p = Some ui"
    and vis: "panelVisible ui"
    and late: "doubleSub (GetMatchTimeElapsed eng) (panelOpenedAt ui) > 15"
  shows "panelState p (OngoingPlayer eng p s) = Some (False, - 1000)
       \<and> \<not> isVisible (OngoingPlayer eng p s) (panelName ui)"
proof -
  obtain completed s1 where c: "checkMultiClick eng p s = (completed, s1)"
    by (cases "checkMultiClick eng p s")
  have s1: "playerTeamSwitchUiMap s1 p = Some ui"
    using checkMultiClick_frame(1) [of eng p s] entry by (simp add: c)
  let ?h = "setTeamSwitchPanelVisible eng p False s1"
  have hmap: "playerTeamSwitchUiMap ?h p = Some (ui\<lparr>panelVisible := False, panelOpenedAt := - 1000\<rparr>)"
    by (simp add: setPanel_map [OF s1])
  have run: "OngoingPlayer eng p s =
       (if isPlayerLikelyDeployed eng p
        then ensureTeamSwitchInteractPoint eng p ?h
        else removeTeamSwitchInteractPoint eng p ?h)"
  proof (cases completed)
    case True
    then show ?thesis
      using valid vis by (simp add: OngoingPlayer_def c s1 hmap Let_def)
  next
    case False
    then show ?thesis
      using valid vis late by (simp add: OngoingPlayer_def c s1 Let_def)
  qed
  have "panelState p ?h = Some (False, - 1000)"
    using panelState_setPanel [OF s1, of eng False] by simp
  moreover have "\<not> isVisible ?h (panelName ui)"
    by (rule hidePanel(5) [OF s1])
  ultimately show ?thesis
    unfolding run by (simp add: OngoingPlayer_tail)
qed

lemma OngoingPlayer_quiet:
  assumes valid: "IsPlayerValid eng p"
    and entry: "playerTeamSwitchUiMap s p = Some ui"
    and nogesture: "\<not> fst (checkMultiClick eng p s)"
    and stay: "\<not> (panelVisible ui \<and> doubleSub (GetMatchTimeElapsed eng) (panelOpenedAt ui) > 15)"
  shows "panelState p (OngoingPlayer eng p s) = Some (panelVisible ui, panelOpenedAt ui)"
proof -
  obtain completed s1 where c: "checkMultiClick eng p s = (completed, s1)"
    by (cases "checkMultiClick eng p s")
  have nc: "\<not> completed" using nogesture by (simp add: c)
  have s1: "playerTeamSwitchUiMap s1 p = Some ui"
    using checkMultiClick_frame(1) [of eng p s] entry by (simp add: c)
  have "panelState p (OngoingPlayer eng p s) = panelState p s1"
    using valid nc stay by (auto simp: OngoingPlayer_def c s1 Let_def OngoingPlayer_tail)
  then show ?thesis by (simp add: panelState_Some [OF s1])
qed

lemma OngoingPlayer_never_stale:
  assumes valid: "IsPlayerValid eng p"
    and after: "panelState p (OngoingPlayer eng p s) = Some (True, opened)"
  shows "doubleSub (GetMatchTimeElapsed eng) opened \<le> 15"
proof (cases "playerTeamSwitchUiMap s p")
  case None
  obtain completed s1 where c: "checkMultiClick eng p s = (completed, s1)"
    by (cases "checkMultiClick eng p s")
  have s1: "playerTeamSwitchUiMap s1 p = None"
    using checkMultiClick_frame(1) [of eng p s] None by (simp add: c)
  have "panelState p (OngoingPlayer eng p s) = panelState p s1"
    using valid by (simp add: OngoingPlayer_def c s1 Let_def OngoingPlayer_tail)
  then show ?thesis using after s1 by (simp add: panelState_def)
next
  case (Some ui)
  obtain completed s1 where c: "checkMultiClick eng p s = (completed, s1)"
    by (cases "checkMultiClick eng p s")
  have s1: "playerTeamSwitchUiMap s1 p = Some ui"
    using checkMultiClick_frame(1) [of eng p s] Some by (simp add: c)
  let ?now = "GetMatchTimeElapsed eng"
  show ?thesis
  proof (cases completed)
    case True
    let ?t = "setTeamSwitchPanelVisible eng p (\<not> panelVisible ui) s1"
    have tmap: "playerTeamSwitchUiMap ?t p = Some (ui\<lparr>panelVisible := \<not> panelVisible ui,
                  panelOpenedAt := (if \<not> panelVisible ui then ?now else - 1000)\<rparr>)"
      by (simp add: setPanel_map [OF s1])
    have "panelState p (OngoingPlayer eng p s) = panelState p ?t"
      using valid True by (simp add: OngoingPlayer_def c s1 tmap Let_def OngoingPlayer_tail)
    then show ?thesis using after by (simp add: panelState_Some [OF tmap] split: if_splits)
  next
    case False
    show ?thesis
    proof (cases "panelVisible ui \<and> doubleSub ?now (panelOpenedAt ui) > 15")
      case True
      then have "panelState p (OngoingPlayer eng p s) = Some (False, - 1000)"
        using OngoingPlayer_timeout [OF valid Some] by simp
      then show ?thesis using after by simp
    next
      case stay: False
      have "panelState p (OngoingPlayer eng p s) = Some (panelVisible ui, panelOpenedAt ui)"
        using OngoingPlayer_quiet [OF valid Some _ stay] False by (simp add: c)
      then show ?thesis using after stay by simp
    qed
  qed
qed

text \<open>
  C9, as amended. On the per-player tick of a valid player: a panel that is visible and
  for which the double-precision difference between the current match time and its
  \<open>openedAt\<close>, as the code computes it, is greater than 15 is hidden on that tick (the
  entry says hidden, the panel widget is not visible); and whenever the entry says visible
  after the tick, that computed difference is at most 15. In exact seconds: a visible
  panel opened at least 16 seconds before the current match time is hidden on the tick.
\<close>

theorem C9_panel_timeout:
  assumes "IsPlayerValid eng p"
  shows "(playerTeamSwitchUiMap s p = Some ui \<and> panelVisible ui
            \<and> doubleSub (GetMatchTimeElapsed eng) (panelOpenedAt ui) > 15 \<longrightarrow>
            panelState p (OngoingPlayer eng p s) = Some (False, - 1000)
          \<and> \<not> isVisible (OngoingPlayer eng p s) (panelName ui))
       \<and> (panelState p (OngoingPlayer eng p s) = Some (True, opened) \<longrightarrow>
            doubleSub (GetMatchTimeElapsed eng) opened \<le> 15)
       \<and> (playerTeamSwitchUiMap s p = Some ui \<and> panelVisible ui
            \<and> 16 \<le> GetMatchTimeElapsed eng - panelOpenedAt ui \<longrightarrow>
            panelState p (OngoingPlayer eng p s) = Some (False, - 1000)
          \<and> \<not> isVisible (OngoingPlayer eng p s) (panelName ui))"
proof -
  have late: "16 \<le> GetMatchTimeElapsed eng - panelOpenedAt ui \<Longrightarrow>
      doubleSub (GetMatchTimeElapsed eng) (panelOpenedAt ui) > 15"
    using roundToDouble_ge_16 [of "GetMatchTimeElapsed eng - panelOpenedAt ui"]
    by (simp add: doubleSub_def)
  show ?thesis
    using OngoingPlayer_timeout [OF assms, of s ui]
      OngoingPlayer_never_stale [OF assms, of s opened] late
    by blast
qed

lemma bitLength_97: "bitLength 97 = 7"
  by (simp add: bitLength.simps)

lemma bitLength_15: "bitLength 15 = 4"
  by (simp add: bitLength.simps)

lemma bitLength_3: "bitLength 3 = 2"
  by (simp add: bitLength.simps)

theorem C9_panel_timeout_witness:
  "panelState 7 openPanelWorld = Some (True, 3)
   \<and> doubleSub 100 3 = 97
   \<and> panelState 7 (OngoingPlayer (exampleEngine\<lparr>GetMatchTimeElapsed := 100\<rparr>) 7 openPanelWorld)
       = Some (False, - 1000)"
proof -
  let ?eng = "exampleEngine\<lparr>GetMatchTimeElapsed := 100\<rparr>"
  let ?ui = "exampleSwitchUi\<lparr>panelVisible := True, panelOpenedAt := 3\<rparr>"
  have v: "IsPlayerValid ?eng 7" by (simp add: exampleEngine_def)
  have e: "playerTeamSwitchUiMap openPanelWorld 7 = Some ?ui" by (simp add: openPanelWorld_def)
  have d: "doubleSub 100 3 = 97"
    by (simp add: doubleSub_def roundToDouble_def floorLog2_def bitLength_97 pow2_def
        roundHalfEven_def Let_def)
  have t: "doubleSub (GetMatchTimeElapsed ?eng) (panelOpenedAt ?ui) > 15" by (simp add: d)
  have p: "panelState 7 openPanelWorld = Some (True, 3)"
    by (simp add: panelState_def openPanelWorld_def)
  show ?thesis using C9_panel_timeout [OF v, of openPanelWorld ?ui] e t p d by simp
qed

text \<open>
  C9 as stated fails at the threshold. Both clock values are doubles; the panel was opened
  at second 0.3 and the tick comes at second 15.3, which is more than 15 seconds later;
  the code's subtraction rounds the difference to exactly 15, the test \<open>> 15\<close> is false,
  and the panel is still visible after the tick.
\<close>

theorem C9_rounding_counterexample:
  "IsPlayerValid laterEngine 7
   \<and> roundToDouble double_0_3 = double_0_3
   \<and> roundToDouble double_15_3 = double_15_3
   \<and> panelState 7 earlyPanelWorld = Some (True, double_0_3)
   \<and> GetMatchTimeElapsed laterEngine - double_0_3 > 15
   \<and> doubleSub (GetMatchTimeElapsed laterEngine) double_0_3 = 15
   \<and> panelState 7 (OngoingPlayer laterEngine 7 earlyPanelWorld) = Some (True, double_0_3)"
proof -
  let ?ui = "exampleSwitchUi\<lparr>panelVisible := True, panelOpenedAt := double_0_3\<rparr>"
  have v: "IsPlayerValid laterEngine 7" by (simp add: laterEngine_def exampleEngine_def)
  have now: "GetMatchTimeElapsed laterEngine = double_15_3" by (simp add: laterEngine_def)
  have r1: "roundToDouble double_0_3 = double_0_3"
    by (simp add: roundToDouble_def double_0_3_def floorLog2_def bitLength_3 pow2_def
        roundHalfEven_def Let_def)
  have r2: "roundToDouble double_15_3 = double_15_3"
    by (simp add: roundToDouble_def double_15_3_def floorLog2_def bitLength_15 pow2_def
        roundHalfEven_def Let_def)
  have exact: "double_15_3 - double_0_3 > 15"
    by (simp add: double_15_3_def double_0_3_def)
  have rounded: "doubleSub double_15_3 double_0_3 = 15"
    by (simp add: doubleSub_def roundToDouble_def double_15_3_def double_0_3_def floorLog2_def
        bitLength_15 pow2_def roundHalfEven_def Let_def)
  have e: "playerTeamSwitchUiMap earlyPanelWorld 7 = Some ?ui"
    by (simp add: earlyPanelWorld_def)
  have fresh: "STATES earlyPanelWorld 7 = None"
    by (simp add: earlyPanelWorld_def exampleWorld_def)
  have ng: "\<not> fst (checkMultiClick laterEngine 7 earlyPanelWorld)"
    by (simp add: checkMultiClick_fresh [OF fresh])
  have stay: "\<not> (panelVisible ?ui
      \<and> doubleSub (GetMatchTimeElapsed laterEngine) (panelOpenedAt ?ui) > 15)"
    by (simp add: now rounded)
  have after: "panelState 7 (OngoingPlayer laterEngine 7 earlyPanelWorld) = Some (True, double_0_3)"
    using OngoingPlayer_quiet [OF v e ng stay] by simp
  have before: "panelState 7 earlyPanelWorld = Some (True, double_0_3)"
    by (simp add: panelState_def earlyPanelWorld_def)
  show ?thesis using v r1 r2 before exact rounded after by (simp add: now)
qed

lemma SetTeam_frame [simp]:
  "playerTeamSwitchUiMap (SetTeam p t s) = playerTeamSwitchUiMap s"
  "widgets (SetTeam p t s) = widgets s"
  "commands (SetTeam p t s) = commands s"
  "teamOf (SetTeam p t s) = (teamOf s)(p := t)"
  "undeploysOf q (SetTeam p t s) = undeploysOf q s"
  by (simp_all add: SetTeam_def undeploysOf_def)

lemma forceUndeployPlayer_frame:
  "playerTeamSwitchUiMap (forceUndeployPlayer eng p s) = playerTeamSwitchUiMap s"
  "widgets (forceUndeployPlayer eng p s) = widgets s"
  "teamOf (forceUndeployPlayer eng p s) = teamOf s"
  "undeploysOf p (forceUndeployPlayer eng p s) =
     undeploysOf p s + (if IsPlayerValid eng p
                        then (if IsPlayerValidAfterWait eng p then 2 else 1) else 0)"
  by (simp_all add: forceUndeployPlayer_def undeploysOf_def Let_def)

lemma hidePanel_undeploys:
  "undeploysOf q (setTeamSwitchPanelVisible eng p False s) = undeploysOf q s"
proof (cases "playerTeamSwitchUiMap s p")
  case None
  then show ?thesis by (simp add: setPanel_none)
next
  case (Some ui)
  show ?thesis by (simp add: undeploysOf_def hidePanel(3) [OF Some])
qed

lemma team_release:
  fixes eng :: engine and t :: team
  assumes entry: "playerTeamSwitchUiMap s p = Some ui"
  defines "s' \<equiv> forceUndeployPlayer eng p
                   (setTeamSwitchPanelVisible eng p False
                     (updateTeamSwitchButtonState p (SetTeam p t s)))"
  shows "teamOf s' p = t"
    and "panelState p s' = Some (False, - 1000)"
    and "\<not> isVisible s' (panelName ui)"
    and "undeploysOf p s' = undeploysOf p s +
           (if IsPlayerValid eng p then (if IsPlayerValidAfterWait eng p then 2 else 1) else 0)"
proof -
  let ?s1 = "updateTeamSwitchButtonState p (SetTeam p t s)"
  have e1: "playerTeamSwitchUiMap ?s1 p = Some ui" using entry by simp
  show "teamOf s' p = t"
    unfolding s'_def by (simp add: forceUndeployPlayer_frame hidePanel(2) [OF e1])
  show "panelState p s' = Some (False, - 1000)"
    unfolding s'_def
    using panelState_setPanel [OF e1, of eng False]
    by (simp add: panelState_def forceUndeployPlayer_frame)
  have "\<not> isVisible (setTeamSwitchPanelVisible eng p False ?s1) (panelName ui)"
    by (rule hidePanel(5) [OF e1])
  then show "\<not> isVisible s' (panelName ui)"
    unfolding s'_def by (simp add: isVisible_def forceUndeployPlayer_frame)
  show "undeploysOf p s' = undeploysOf p s +
           (if IsPlayerValid eng p then (if IsPlayerValidAfterWait eng p then 2 else 1) else 0)"
    unfolding s'_def by (simp add: forceUndeployPlayer_frame hidePanel_undeploys)
qed

lemma team2_event:
  assumes "playerTeamSwitchUiMap s p = Some ui" and "panelVisible ui"
    and "\<not> isClickOn s w (closeButtonName ui) (closeTextName ui)"
    and "\<not> isClickOn s w (team1ButtonName ui) (team1TextName ui)"
    and "isClickOn s w (team2ButtonName ui) (team2TextName ui)"
  shows "OnPlayerUIButtonEvent eng p w ButtonUp s =
           forceUndeployPlayer eng p
             (setTeamSwitchPanelVisible eng p False
               (updateTeamSwitchButtonState p (SetTeam p 2 s)))"
    and "OnPlayerUIButtonEvent eng p w ButtonDown s = s"
  using assms by (simp_all add: OnPlayerUIButtonEvent_def Let_def)


text \<open>
  C8, as amended. With the panel visible, a release event that matches the team-2 button
  (by name, by handle or by the ancestor walk) and neither the close nor the team-1
  control, which the handler tests first, puts the player on team 2 and hides the panel;
  it issues the undeploy command twice when the player is valid before and after the
  wait, once when valid only before it, and not at all when already invalid. A press
  event on the same widget changes nothing.
\<close>

theorem C8_team2_release:
  assumes "playerTeamSwitchUiMap s p = Some ui" and "panelVisible ui"
    and "\<not> isClickOn s w (closeButtonName ui) (closeTextName ui)"
    and "\<not> isClickOn s w (team1ButtonName ui) (team1TextName ui)"
    and "isClickOn s w (team2ButtonName ui) (team2TextName ui)"
  shows "teamOf (OnPlayerUIButtonEvent eng p w ButtonUp s) p = 2
       \<and> panelState p (OnPlayerUIButtonEvent eng p w ButtonUp s) = Some (False, - 1000)
       \<and> \<not> isVisible (OnPlayerUIButtonEvent eng p w ButtonUp s) (panelName ui)
       \<and> undeploysOf p (OnPlayerUIButtonEvent eng p w ButtonUp s) =
           undeploysOf p s +
           (if IsPlayerValid eng p then (if IsPlayerValidAfterWait eng p then 2 else 1) else 0)
       \<and> (IsPlayerValid eng p \<and> IsPlayerValidAfterWait eng p \<longrightarrow>
            undeploysOf p (OnPlayerUIButtonEvent eng p w ButtonUp s) = undeploysOf p s + 2)
       \<and> OnPlayerUIButtonEvent eng p w ButtonDown s = s"
  unfolding team2_event [OF assms]
  using team_release [OF assms(1), of eng 2] by simp

lemma ancestorWalk_None: "ancestorWalk s names n None = False"
  by (cases n) simp_all

lemma widgetOrAncestorMatchesName_step:
  "widgetOrAncestorMatchesName s w names =
     (list_ex (nameMatches w) names \<or> ancestorWalk s names 7 (GetUIWidgetParent s w))"
  by (simp add: widgetOrAncestorMatchesName_def eval_nat_numeral)

lemma example_open_entry:
  "playerTeamSwitchUiMap openPanelWorld 7 = Some (exampleSwitchUi\<lparr>panelVisible := True, panelOpenedAt := 3\<rparr>)"
  "panelVisible (exampleSwitchUi\<lparr>panelVisible := True, panelOpenedAt := 3\<rparr>)"
  by (simp_all add: openPanelWorld_def)

lemma example_click_on_team2:
  "\<not> isClickOn openPanelWorld ''HUD_TEAM_SWITCH_T2_7''
       (closeButtonName (exampleSwitchUi\<lparr>panelVisible := True, panelOpenedAt := 3\<rparr>))
       (closeTextName (exampleSwitchUi\<lparr>panelVisible := True, panelOpenedAt := 3\<rparr>))"
  "\<not> isClickOn openPanelWorld ''HUD_TEAM_SWITCH_T2_7''
       (team1ButtonName (exampleSwitchUi\<lparr>panelVisible := True, panelOpenedAt := 3\<rparr>))
       (team1TextName (exampleSwitchUi\<lparr>panelVisible := True, panelOpenedAt := 3\<rparr>))"
  "isClickOn openPanelWorld ''HUD_TEAM_SWITCH_T2_7''
       (team2ButtonName (exampleSwitchUi\<lparr>panelVisible := True, panelOpenedAt := 3\<rparr>))
       (team2TextName (exampleSwitchUi\<lparr>panelVisible := True, panelOpenedAt := 3\<rparr>))"
proof -
  have par: "GetUIWidgetParent openPanelWorld ''HUD_TEAM_SWITCH_T2_7'' = None"
    by (simp add: GetUIWidgetParent_def openPanelWorld_def exampleWorld_def)
  show "\<not> isClickOn openPanelWorld ''HUD_TEAM_SWITCH_T2_7''
       (closeButtonName (exampleSwitchUi\<lparr>panelVisible := True, panelOpenedAt := 3\<rparr>))
       (closeTextName (exampleSwitchUi\<lparr>panelVisible := True, panelOpenedAt := 3\<rparr>))"
    by (simp add: isClickOn_def widgetOrAncestorMatchesName_step nameMatches_def par
        ancestorWalk_None exampleSwitchUi_def)
  show "\<not> isClickOn openPanelWorld ''HUD_TEAM_SWITCH_T2_7''
       (team1ButtonName (exampleSwitchUi\<lparr>panelVisible := True, panelOpenedAt := 3\<rparr>))
       (team1TextName (exampleSwitchUi\<lparr>panelVisible := True, panelOpenedAt := 3\<rparr>))"
    by (simp add: isClickOn_def widgetOrAncestorMatchesName_step nameMatches_def par
        ancestorWalk_None exampleSwitchUi_def)
  show "isClickOn openPanelWorld ''HUD_TEAM_SWITCH_T2_7''
       (team2ButtonName (exampleSwitchUi\<lparr>panelVisible := True, panelOpenedAt := 3\<rparr>))
       (team2TextName (exampleSwitchUi\<lparr>panelVisible := True, panelOpenedAt := 3\<rparr>))"
    by (simp add: isClickOn_def exampleSwitchUi_def)
qed

lemma example_no_undeploys: "undeploysOf 7 openPanelWorld = 0"
  by (simp add: undeploysOf_def openPanelWorld_def exampleWorld_def)

theorem C8_team2_release_witness:
  "teamOf (OnPlayerUIButtonEvent exampleEngine 7 ''HUD_TEAM_SWITCH_T2_7'' ButtonUp openPanelWorld) 7 = 2
   \<and> panelState 7 (OnPlayerUIButtonEvent exampleEngine 7 ''HUD_TEAM_SWITCH_T2_7'' ButtonUp openPanelWorld)
       = Some (False, - 1000)
   \<and> undeploysOf 7 (OnPlayerUIButtonEvent exampleEngine 7 ''HUD_TEAM_SWITCH_T2_7'' ButtonUp openPanelWorld) = 2
   \<and> OnPlayerUIButtonEvent exampleEngine 7 ''HUD_TEAM_SWITCH_T2_7'' ButtonDown openPanelWorld
       = openPanelWorld"
proof -
  have v: "IsPlayerValid exampleEngine 7" "IsPlayerValidAfterWait exampleEngine 7"
    by (simp_all add: exampleEngine_def)
  show ?thesis
    using C8_team2_release [OF example_open_entry example_click_on_team2, of exampleEngine]
      v example_no_undeploys
    by simp
qed

text \<open>
  C8 as stated fails when the player stops being valid during the 0.05 s wait of
  \<open>forceUndeployPlayer\<close>: the release on the team-2 button issues the undeploy command
  once, not twice.
\<close>

theorem C8_player_gone_counterexample:
  "isClickOn openPanelWorld ''HUD_TEAM_SWITCH_T2_7'' ''HUD_TEAM_SWITCH_T2_7'' ''HUD_TEAM_SWITCH_T2_TEXT_7''
   \<and> undeploysOf 7 openPanelWorld = 0
   \<and> undeploysOf 7 (OnPlayerUIButtonEvent leavingEngine 7
        ''HUD_TEAM_SWITCH_T2_7'' ButtonUp openPanelWorld) = 1"
proof -
  have v: "IsPlayerValid leavingEngine 7" "\<not> IsPlayerValidAfterWait leavingEngine 7"
    by (simp_all add: leavingEngine_def exampleEngine_def)
  have "undeploysOf 7 (OnPlayerUIButtonEvent leavingEngine 7 ''HUD_TEAM_SWITCH_T2_7'' ButtonUp
          openPanelWorld) = 1"
    unfolding team2_event(1) [OF example_open_entry example_click_on_team2]
    using team_release(4) [OF example_open_entry(1), of leavingEngine 2] v example_no_undeploys
    by simp
  moreover have "isClickOn openPanelWorld ''HUD_TEAM_SWITCH_T2_7'' ''HUD_TEAM_SWITCH_T2_7''
      ''HUD_TEAM_SWITCH_T2_TEXT_7''"
    by (simp add: isClickOn_def)
  ultimately show ?thesis using example_no_undeploys by simp
qed

section \<open>HUD creation\<close>

lemma AddUI_frame [simp]:
  "playerHudMap (AddUIContainer eng n sz par vis p s) = playerHudMap s"
  "playerHudMap (AddUIText eng n sz par vis m p s) = playerHudMap s"
  by (simp_all add: AddUIContainer_def AddUIText_def)

lemma addHudWidgets_frame [simp]:
  "playerHudMap (addHudWidgets eng rootName p cs s) = playerHudMap s"
  by (induction eng rootName p cs s rule: addHudWidgets.induct) simp_all

lemma resolves_AddUIContainer:
  "resolves (AddUIContainer eng n sz par vis p s) n = (uiAccepts eng n \<or> resolves s n)"
  by (simp add: AddUIContainer_def resolves_def FindUIWidgetWithName_def)








section \<open>Objective icons: one pair per stack\<close>

lemma resolves_SetUIWidgetVisible [simp]:
  "resolves (SetUIWidgetVisible n v s) m = resolves s m"
  by (simp add: resolves_def FindUIWidgetWithName_def SetUIWidgetVisible_def updWidget_def
      split: option.splits)

lemma updateSingle_visible:
  assumes res: "resolves s n" "resolves s ni" "resolves s f" "resolves s fi"
      "resolves s e" "resolves s ei"
    and dist: "distinct [n, ni, f, fi, e, ei]"
  shows "ow = None \<or> (ow \<noteq> Some 1 \<and> ow \<noteq> Some 2) \<Longrightarrow>
           showsOnly (updateSingleObjectiveVisibility pt ow n ni f fi e ei s) (n, ni) (f, fi) (e, ei)"
    and "ow = Some 1 \<or> ow = Some 2 \<Longrightarrow> ow = Some pt \<Longrightarrow>
           showsOnly (updateSingleObjectiveVisibility pt ow n ni f fi e ei s) (f, fi) (n, ni) (e, ei)"
    and "ow = Some 1 \<or> ow = Some 2 \<Longrightarrow> ow \<noteq> Some pt \<Longrightarrow>
           showsOnly (updateSingleObjectiveVisibility pt ow n ni f fi e ei s) (e, ei) (n, ni) (f, fi)"
  using res dist
  by (auto simp: updateSingleObjectiveVisibility_def showsOnly_def Let_def
      isVisible_SetUIWidgetVisible)


lemma resolves_AddUI_mono:
  "resolves s n \<Longrightarrow> resolves (AddUIContainer eng m sz par vis p s) n"
  "resolves s n \<Longrightarrow> resolves (AddUIText eng m sz par vis msg p s) n"
  by (simp_all add: resolves_def FindUIWidgetWithName_def AddUIContainer_def AddUIText_def)

lemma resolves_AddUI_new:
  "uiAccepts eng n \<Longrightarrow> resolves (AddUIContainer eng n sz par vis p s) n"
  "uiAccepts eng n \<Longrightarrow> resolves (AddUIText eng n sz par vis msg p s) n"
  by (simp_all add: resolves_def FindUIWidgetWithName_def AddUIContainer_def AddUIText_def)

lemma resolves_addHudWidgets_mono:
  "resolves s n \<Longrightarrow> resolves (addHudWidgets eng r p cs s) n"
  by (induction eng r p cs s rule: addHudWidgets.induct) (simp_all add: resolves_AddUI_mono)

lemma resolves_addHudWidgets_mem:
  "n \<in> fst ` set cs \<Longrightarrow> uiAccepts eng n \<Longrightarrow> resolves (addHudWidgets eng r p cs s) n"
proof (induction eng r p cs s rule: addHudWidgets.induct)
  case (1 eng rootName p s)
  then show ?case by simp
next
  case (2 eng rootName p name sz vis cs s)
  show ?case
  proof (cases "n = name")
    case True
    then show ?thesis
      using 2(3) by (simp add: resolves_addHudWidgets_mono resolves_AddUI_new)
  next
    case False
    then show ?thesis using 2 by simp
  qed
next
  case (3 eng rootName p name sz vis m cs s)
  show ?case
  proof (cases "n = name")
    case True
    then show ?thesis
      using 3(3) by (simp add: resolves_addHudWidgets_mono resolves_AddUI_new)
  next
    case False
    then show ?thesis using 3 by simp
  qed
qed

lemma resolves_playerHudMap_update [simp]:
  "resolves (s\<lparr>playerHudMap := m\<rparr>) n = resolves s n"
  by (simp add: resolves_def FindUIWidgetWithName_def)

lemma createHUD_resolves:
  assumes "playerHudMap s p = None" and "\<And>n. uiAccepts eng n"
    and "\<And>s1. n \<in> fst ` set (hudCalls p s1)"
  shows "resolves (createHUD eng p s) n"
  using assms
  by (simp add: createHUD_def Let_def resolves_AddUIContainer resolves_addHudWidgets_mem)

lemma hudCalls_names:
  "fst ` set (hudCalls p s1) \<supseteq>
     {objA_Neutral (hudNames p), objA_NeutralInner (hudNames p), objA_Friendly (hudNames p),
      objA_FriendlyInner (hudNames p), objA_Enemy (hudNames p), objA_EnemyInner (hudNames p),
      objB_Neutral (hudNames p), objB_NeutralInner (hudNames p), objB_Friendly (hudNames p),
      objB_FriendlyInner (hudNames p), objB_Enemy (hudNames p), objB_EnemyInner (hudNames p),
      objC_Neutral (hudNames p), objC_NeutralInner (hudNames p), objC_Friendly (hudNames p),
      objC_FriendlyInner (hudNames p), objC_Enemy (hudNames p), objC_EnemyInner (hudNames p)}"
  by (simp add: hudCalls_def Let_def)

lemma hudNames_distinct:
  "distinct [objA_Neutral (hudNames p), objA_NeutralInner (hudNames p), objA_Friendly (hudNames p),
             objA_FriendlyInner (hudNames p), objA_Enemy (hudNames p), objA_EnemyInner (hudNames p)]"
  "distinct [objB_Neutral (hudNames p), objB_NeutralInner (hudNames p), objB_Friendly (hudNames p),
             objB_FriendlyInner (hudNames p), objB_Enemy (hudNames p), objB_EnemyInner (hudNames p)]"
  "distinct [objC_Neutral (hudNames p), objC_NeutralInner (hudNames p), objC_Friendly (hudNames p),
             objC_FriendlyInner (hudNames p), objC_Enemy (hudNames p), objC_EnemyInner (hudNames p)]"
  by (simp_all add: hudNames_def Let_def)


lemma showsOnly_exclusive:
  "showsOnly s a b c \<Longrightarrow> \<not> showsOnly s b a c"
  "showsOnly s a b c \<Longrightarrow> \<not> showsOnly s c a b"
  "showsOnly s a b c \<Longrightarrow> \<not> showsOnly s b c a"
  "showsOnly s a b c \<Longrightarrow> \<not> showsOnly s c b a"
  by (auto simp: showsOnly_def)

text \<open>
  For any viewer: exactly one pair is shown; Neutral when the owner is unset or neither
  scoring team, otherwise Friendly when the owner is the viewer's team and Enemy when it
  is not.
\<close>

lemma objective_visibility_any_viewer:
  assumes "resolves s n" "resolves s ni" "resolves s f" "resolves s fi"
      "resolves s e" "resolves s ei"
    and "distinct [n, ni, f, fi, e, ei]"
    and "s' = updateSingleObjectiveVisibility playerTeam ownerTeam n ni f fi e ei s"
  shows "(showsOnly s' (n, ni) (f, fi) (e, ei)
          \<or> showsOnly s' (f, fi) (n, ni) (e, ei)
          \<or> showsOnly s' (e, ei) (n, ni) (f, fi))
       \<and> (showsOnly s' (n, ni) (f, fi) (e, ei) \<longleftrightarrow>
            ownerTeam = None \<or> (ownerTeam \<noteq> Some 1 \<and> ownerTeam \<noteq> Some 2))
       \<and> (showsOnly s' (f, fi) (n, ni) (e, ei) \<longleftrightarrow>
            (ownerTeam = Some 1 \<or> ownerTeam = Some 2) \<and> ownerTeam = Some playerTeam)
       \<and> (showsOnly s' (e, ei) (n, ni) (f, fi) \<longleftrightarrow>
            (ownerTeam = Some 1 \<or> ownerTeam = Some 2) \<and> ownerTeam \<noteq> Some playerTeam)
       \<and> (playerTeam = 1 \<or> playerTeam = 2 \<longrightarrow>
            (showsOnly s' (f, fi) (n, ni) (e, ei) \<longleftrightarrow> ownerTeam = Some playerTeam))"
proof -
  note vis = updateSingle_visible [OF assms(1-7), of ownerTeam playerTeam, folded assms(8)]
  consider (neutral) "ownerTeam = None \<or> (ownerTeam \<noteq> Some 1 \<and> ownerTeam \<noteq> Some 2)"
    | (friendly) "ownerTeam = Some 1 \<or> ownerTeam = Some 2" "ownerTeam = Some playerTeam"
    | (enemy) "ownerTeam = Some 1 \<or> ownerTeam = Some 2" "ownerTeam \<noteq> Some playerTeam"
    by blast
  then show ?thesis
  proof cases
    case neutral
    then have "showsOnly s' (n, ni) (f, fi) (e, ei)" by (rule vis(1))
    then show ?thesis using neutral showsOnly_exclusive [of s' "(n, ni)" "(f, fi)" "(e, ei)"]
      by auto
  next
    case friendly
    then have "showsOnly s' (f, fi) (n, ni) (e, ei)" by (rule vis(2))
    then show ?thesis using friendly showsOnly_exclusive [of s' "(f, fi)" "(n, ni)" "(e, ei)"]
      by auto
  next
    case enemy
    then have "showsOnly s' (e, ei) (n, ni) (f, fi)" by (rule vis(3))
    then show ?thesis using enemy showsOnly_exclusive [of s' "(e, ei)" "(n, ni)" "(f, fi)"]
      by auto
  qed
qed

text \<open>
  C6. For a viewer on team 1 or team 2, a refresh of one objective stack whose six widgets
  resolve (six different widgets, as the names \<open>createHUD\<close> builds are) leaves exactly one
  outer/inner pair visible and the two other pairs invisible: the Neutral pair exactly
  when the owner is unset or is neither team 1 nor team 2, the Friendly pair exactly when
  the owner equals the viewer's team, and the Enemy pair otherwise.
\<close>

theorem C6_objective_visibility:
  assumes "resolves s n" "resolves s ni" "resolves s f" "resolves s fi"
      "resolves s e" "resolves s ei"
    and "distinct [n, ni, f, fi, e, ei]"
    and "s' = updateSingleObjectiveVisibility playerTeam ownerTeam n ni f fi e ei s"
    and "playerTeam = 1 \<or> playerTeam = 2"
  shows "(showsOnly s' (n, ni) (f, fi) (e, ei)
          \<or> showsOnly s' (f, fi) (n, ni) (e, ei)
          \<or> showsOnly s' (e, ei) (n, ni) (f, fi))
       \<and> (showsOnly s' (n, ni) (f, fi) (e, ei) \<longleftrightarrow>
            ownerTeam = None \<or> (ownerTeam \<noteq> Some 1 \<and> ownerTeam \<noteq> Some 2))
       \<and> (showsOnly s' (f, fi) (n, ni) (e, ei) \<longleftrightarrow> ownerTeam = Some playerTeam)
       \<and> (showsOnly s' (e, ei) (n, ni) (f, fi) \<longleftrightarrow>
            \<not> (ownerTeam = None \<or> (ownerTeam \<noteq> Some 1 \<and> ownerTeam \<noteq> Some 2))
            \<and> ownerTeam \<noteq> Some playerTeam)"
proof -
  note any = objective_visibility_any_viewer [OF assms(1-8)]
  from any have one: "showsOnly s' (n, ni) (f, fi) (e, ei)
          \<or> showsOnly s' (f, fi) (n, ni) (e, ei)
          \<or> showsOnly s' (e, ei) (n, ni) (f, fi)" by blast
  from any have neutral: "showsOnly s' (n, ni) (f, fi) (e, ei) \<longleftrightarrow>
            ownerTeam = None \<or> (ownerTeam \<noteq> Some 1 \<and> ownerTeam \<noteq> Some 2)" by blast
  from any assms(9) have friendly:
    "showsOnly s' (f, fi) (n, ni) (e, ei) \<longleftrightarrow> ownerTeam = Some playerTeam" by blast
  from any have "showsOnly s' (e, ei) (n, ni) (f, fi) \<longleftrightarrow>
            (ownerTeam = Some 1 \<or> ownerTeam = Some 2) \<and> ownerTeam \<noteq> Some playerTeam" by blast
  then have enemy: "showsOnly s' (e, ei) (n, ni) (f, fi) \<longleftrightarrow>
            \<not> (ownerTeam = None \<or> (ownerTeam \<noteq> Some 1 \<and> ownerTeam \<noteq> Some 2))
            \<and> ownerTeam \<noteq> Some playerTeam" by blast
  show ?thesis using one neutral friendly enemy by - (intro conjI; assumption)
qed

lemma exampleHud_resolves:
  "resolves exampleHudWorld (objA_Neutral (hudNames 7))"
  "resolves exampleHudWorld (objA_NeutralInner (hudNames 7))"
  "resolves exampleHudWorld (objA_Friendly (hudNames 7))"
  "resolves exampleHudWorld (objA_FriendlyInner (hudNames 7))"
  "resolves exampleHudWorld (objA_Enemy (hudNames 7))"
  "resolves exampleHudWorld (objA_EnemyInner (hudNames 7))"
proof -
  have e: "playerHudMap exampleWorld 7 = None" by (simp add: exampleWorld_def)
  have a: "\<And>n. uiAccepts exampleEngine n" by (simp add: exampleEngine_def)
  note r = createHUD_resolves [OF e a, folded exampleHudWorld_def]
  show "resolves exampleHudWorld (objA_Neutral (hudNames 7))"
    "resolves exampleHudWorld (objA_NeutralInner (hudNames 7))"
    "resolves exampleHudWorld (objA_Friendly (hudNames 7))"
    "resolves exampleHudWorld (objA_FriendlyInner (hudNames 7))"
    "resolves exampleHudWorld (objA_Enemy (hudNames 7))"
    "resolves exampleHudWorld (objA_EnemyInner (hudNames 7))"
    using hudCalls_names [of 7] by (auto intro!: r)
qed

theorem C6_objective_visibility_witness:
  "showsOnly (updateSingleObjectiveVisibility 2 (Some 2)
       (objA_Neutral (hudNames 7)) (objA_NeutralInner (hudNames 7))
       (objA_Friendly (hudNames 7)) (objA_FriendlyInner (hudNames 7))
       (objA_Enemy (hudNames 7)) (objA_EnemyInner (hudNames 7)) exampleHudWorld)
     (objA_Friendly (hudNames 7), objA_FriendlyInner (hudNames 7))
     (objA_Neutral (hudNames 7), objA_NeutralInner (hudNames 7))
     (objA_Enemy (hudNames 7), objA_EnemyInner (hudNames 7))"
proof -
  have viewer: "(2::team) = 1 \<or> (2::team) = 2" by simp
  show ?thesis
    using C6_objective_visibility [OF exampleHud_resolves hudNames_distinct(1) refl viewer,
        of "Some 2"]
    by simp
qed

end
